theory Spec2Isabelle
  imports Complex_Main "HOL-Library.Option_ord" "HOL-Library.Sublist"
begin

section \<open>The relational store of server.js\<close>

text \<open>
  The program is an Express application whose whole state is a PostgreSQL database of six
  tables, created by \<open>initDatabase\<close>. Each table is modelled as the list of its rows in
  insertion order, each row as a record with one field per column, a nullable column as an
  \<open>option\<close> (\<open>None\<close> is SQL NULL). A \<open>SERIAL\<close> column draws its value from a sequence,
  kept in the state next to the table; PostgreSQL advances the sequence when the default
  is computed, before the constraints are checked, so an insert that fails still consumes
  a number.

  Scope of the model: \<open>INTEGER\<close> is \<open>int\<close> and \<open>VARCHAR(n)\<close>/\<open>TEXT\<close> is \<open>string\<close> without
  the size limits of the store; \<open>DECIMAL(p,2)\<close> is the integer number of hundredths;
  \<open>TIMESTAMP\<close> is a number of seconds and \<open>CURRENT_TIMESTAMP\<close> is the clock reading
  \<open>now\<close> handed to each request; \<open>JSONB\<close> is the serialised text. Requests are handled one
  after the other. The constraints written in the schema (\<open>NOT NULL\<close>, \<open>UNIQUE\<close>,
  \<open>PRIMARY KEY\<close>, \<open>REFERENCES\<close>, \<open>CHECK\<close>) are checked by the statements below; a
  violated constraint is the exception that the handler's \<open>catch\<close> turns into status 500.
\<close>

type_synonym ident = int
type_synonym timestamp = nat
type_synonym decimal2 = int

record user_row =
  u_id :: ident
  u_email :: string
  u_password :: string
  u_role :: string
  u_full_name :: string
  u_phone :: "string option"
  u_profile_image :: "string option"
  u_is_verified :: bool
  u_is_certified :: bool
  u_ville :: "string option"
  u_secteur :: "string option"
  u_created_at :: timestamp
  u_updated_at :: timestamp

record profile_row =
  p_id :: ident
  p_user_id :: ident
  p_metier :: string
  p_description :: "string option"
  p_annees_experience :: "int option"
  p_tarif_horaire :: "decimal2 option"
  p_zone_intervention :: "string option"
  p_adresse :: "string option"
  p_portfolio :: "string option"
  p_disponibilites :: "string option"
  p_note_moyenne :: "decimal2 option"
  p_nombre_avis :: "int option"

record service_row =
  s_id :: ident
  s_prestataire_id :: ident
  s_nom_service :: string
  s_description :: "string option"
  s_prix :: "decimal2 option"
  s_duree_estimee :: "int option"
  s_categorie :: "string option"
  s_created_at :: timestamp

record booking_row =
  b_id :: ident
  b_client_id :: ident
  b_prestataire_id :: ident
  b_service_id :: ident
  b_date_reservation :: timestamp
  b_statut :: "string option"
  b_adresse_prestation :: "string option"
  b_prix_final :: "decimal2 option"
  b_notes_client :: "string option"
  b_created_at :: timestamp
  b_updated_at :: timestamp

record review_row =
  r_id :: ident
  r_booking_id :: ident
  r_note :: "int option"
  r_commentaire :: "string option"
  r_photos_review :: "string option"
  r_created_at :: timestamp

record message_row =
  m_id :: ident
  m_booking_id :: ident
  m_expediteur_id :: ident
  m_message :: string
  m_lu :: bool
  m_created_at :: timestamp

record db =
  users :: "user_row list"
  prestataire_profiles :: "profile_row list"
  services :: "service_row list"
  bookings :: "booking_row list"
  reviews :: "review_row list"
  messages :: "message_row list"
  users_id_seq :: ident
  prestataire_profiles_id_seq :: ident
  services_id_seq :: ident
  bookings_id_seq :: ident
  reviews_id_seq :: ident
  messages_id_seq :: ident

text \<open>The database right after \<open>initDatabase\<close>: six empty tables, every sequence at 1.\<close>

definition initDatabase :: db where
  "initDatabase =
     \<lparr>users = [], prestataire_profiles = [], services = [], bookings = [], reviews = [],
      messages = [], users_id_seq = 1, prestataire_profiles_id_seq = 1, services_id_seq = 1,
      bookings_id_seq = 1, reviews_id_seq = 1, messages_id_seq = 1\<rparr>"

subsection \<open>String constants of the source\<close>

text \<open>
  The source is UTF-8; a \<open>string\<close> is a list of bytes, so the accented letters of the
  French messages are written as their two bytes.
\<close>

definition e_acute :: string where "e_acute = [CHR 0xC3, CHR 0xA9]"
definition e_grave :: string where "e_grave = [CHR 0xC3, CHR 0xA8]"
definition a_grave :: string where "a_grave = [CHR 0xC3, CHR 0xA0]"

definition metier_general :: string where
  "metier_general = ''G'' @ e_acute @ ''n'' @ e_acute @ ''ral''"

definition msg_token_requis :: string where "msg_token_requis = ''Token requis''"
definition msg_token_invalide :: string where "msg_token_invalide = ''Token invalide''"
definition msg_erreur_serveur :: string where "msg_erreur_serveur = ''Erreur serveur''"
definition msg_email_utilise :: string where
  "msg_email_utilise = ''Email d'' @ e_acute @ ''j'' @ a_grave @ '' utilis'' @ e_acute"
definition msg_utilisateur_cree :: string where
  "msg_utilisateur_cree = ''Utilisateur cr'' @ e_acute @ e_acute @ '' avec succ'' @ e_grave @ ''s''"
definition msg_identifiants :: string where
  "msg_identifiants = ''Email ou mot de passe incorrect''"
definition msg_connexion :: string where
  "msg_connexion = ''Connexion r'' @ e_acute @ ''ussie''"
definition msg_prestataire_non_trouve :: string where
  "msg_prestataire_non_trouve = ''Prestataire non trouv'' @ e_acute"
definition msg_profil_non_trouve :: string where
  "msg_profil_non_trouve = ''Profil non trouv'' @ e_acute"
definition msg_profil_mis_a_jour :: string where
  "msg_profil_mis_a_jour = ''Profil mis '' @ a_grave @ '' jour avec succ'' @ e_grave @ ''s''"
definition msg_acces_reserve :: string where
  "msg_acces_reserve = ''Acc'' @ e_grave @ ''s r'' @ e_acute @ ''serv'' @ e_acute @ '' aux prestataires''"
definition msg_profil_prestataire_non_trouve :: string where
  "msg_profil_prestataire_non_trouve = ''Profil prestataire non trouv'' @ e_acute"
definition msg_service_cree :: string where
  "msg_service_cree = ''Service cr'' @ e_acute @ e_acute @ '' avec succ'' @ e_grave @ ''s''"
definition msg_reservation_creee :: string where
  "msg_reservation_creee =
     ''R'' @ e_acute @ ''servation cr'' @ e_acute @ e_acute @ ''e avec succ'' @ e_grave @ ''s''"
definition msg_reservation_non_trouvee :: string where
  "msg_reservation_non_trouvee = ''R'' @ e_acute @ ''servation non trouv'' @ e_acute @ ''e''"
definition msg_statut_mis_a_jour :: string where
  "msg_statut_mis_a_jour = ''Statut mis '' @ a_grave @ '' jour avec succ'' @ e_grave @ ''s''"
definition msg_non_autorise :: string where
  "msg_non_autorise =
     ''Non autoris'' @ e_acute @ '' ou r'' @ e_acute @ ''servation non termin'' @ e_acute @ ''e''"
definition msg_avis_existe :: string where
  "msg_avis_existe =
     ''Un avis existe d'' @ e_acute @ ''j'' @ a_grave @ '' pour cette r'' @ e_acute @ ''servation''"
definition msg_avis_ajoute :: string where
  "msg_avis_ajoute = ''Avis ajout'' @ e_acute @ '' avec succ'' @ e_grave @ ''s''"
definition msg_message_envoye :: string where
  "msg_message_envoye = ''Message envoy'' @ e_acute @ '' avec succ'' @ e_grave @ ''s''"

section \<open>The libraries behind the handlers\<close>

subsection \<open>jsonwebtoken\<close>

text \<open>
  A token is modelled symbolically: the payload together with the key it was signed with.
  \<open>jwt.sign(payload, secret, {expiresIn: '24h'})\<close> adds the issue time \<open>iat\<close> and
  \<open>exp = iat + 86400\<close>; \<open>jwt.verify\<close> accepts a token signed with the same key whose
  \<open>exp\<close> lies in the future and returns the decoded payload. The fields \<open>email\<close> and
  \<open>role\<close> are copied from the request body by the register handler, so they are
  nullable.
\<close>

record claims =
  userId :: ident
  email :: "string option"
  role :: "string option"
  iat :: timestamp
  exp :: timestamp

datatype jwt = Signed claims string

definition jwt_sign :: "ident \<Rightarrow> string option \<Rightarrow> string option \<Rightarrow> string \<Rightarrow> timestamp \<Rightarrow> jwt" where
  "jwt_sign uid em ro secret now =
     Signed \<lparr>userId = uid, email = em, role = ro, iat = now, exp = now + 86400\<rparr> secret"

fun jwt_verify :: "jwt \<Rightarrow> string \<Rightarrow> timestamp \<Rightarrow> claims option" where
  "jwt_verify (Signed c k) secret now = (if k = secret \<and> now < exp c then Some c else None)"

subsection \<open>bcryptjs and the environment\<close>

text \<open>
  \<open>bcrypt.hash(password, 10)\<close> draws a random salt; the salt is an input of the request
  here. Both library functions and the signing secret \<open>process.env.JWT_SECRET\<close> are
  parameters of the handlers.
\<close>

record env =
  JWT_SECRET :: string
  bcrypt_hash :: "nat \<Rightarrow> string \<Rightarrow> string"
  bcrypt_compare :: "string \<Rightarrow> string \<Rightarrow> bool"

section \<open>Responses\<close>

record register_user =
  ru_id :: ident
  ru_email :: string
  ru_full_name :: string
  ru_role :: string
  ru_ville :: "string option"
  ru_secteur :: "string option"

record login_user =
  lu_id :: ident
  lu_email :: string
  lu_full_name :: string
  lu_role :: string
  lu_is_verified :: bool
  lu_is_certified :: bool
  lu_ville :: "string option"
  lu_secteur :: "string option"
  lu_profile_image :: "string option"

text \<open>
  A row of the provider list carries the fourteen columns the query selects. The row of
  the provider detail is \<open>SELECT u.*, p.*\<close>, which the driver turns into one JavaScript
  object: a map from column name to value, where a column name that occurs twice (\<open>id\<close>)
  keeps the value of its last occurrence.
\<close>

record listing_row =
  l_id :: ident
  l_full_name :: string
  l_profile_image :: "string option"
  l_is_verified :: bool
  l_is_certified :: bool
  l_metier :: string
  l_description :: "string option"
  l_note_moyenne :: "decimal2 option"
  l_nombre_avis :: "int option"
  l_zone_intervention :: "string option"
  l_tarif_horaire :: "decimal2 option"
  l_annees_experience :: "int option"
  l_ville :: "string option"
  l_secteur :: "string option"

datatype val = VNull | VInt int | VStr string | VBool bool | VDecimal decimal2 | VTime timestamp

type_synonym obj = "string \<rightharpoonup> val"

record avis_row =
  a_review :: review_row
  a_client_name :: string
  a_client_image :: "string option"

datatype body =
    ErrorBody string
  | RegisterBody string jwt register_user
  | LoginBody string jwt login_user
  | PrestatairesBody "listing_row list" int int
  | PrestataireBody obj "service_row list" "avis_row list"
  | ProfileBody string profile_row
  | ServiceBody string service_row
  | BookingBody string booking_row
  | ReviewBody string review_row
  | MessageBody string message_row

record response =
  status :: nat
  body :: body

definition erreur_serveur :: response where
  "erreur_serveur = \<lparr>status = 500, body = ErrorBody msg_erreur_serveur\<rparr>"

section \<open>Authentication\<close>

subsection \<open>INSERT INTO users, INSERT INTO prestataire_profiles\<close>

definition insert_user ::
  "db \<Rightarrow> timestamp \<Rightarrow> string option \<Rightarrow> string \<Rightarrow> string option \<Rightarrow> string option \<Rightarrow>
   string option \<Rightarrow> string option \<Rightarrow> string option \<Rightarrow> user_row option \<times> db" where
  "insert_user d now em hashed full_name phone ro ville secteur =
     (let i = users_id_seq d; d1 = d\<lparr>users_id_seq := i + 1\<rparr> in
      case (em, ro, full_name) of
        (Some e, Some r, Some n) \<Rightarrow>
          if (r = ''client'' \<or> r = ''prestataire'')
             \<and> i \<notin> set (map u_id (users d)) \<and> e \<notin> set (map u_email (users d))
          then
            (let row = \<lparr>u_id = i, u_email = e, u_password = hashed, u_role = r,
                        u_full_name = n, u_phone = phone, u_profile_image = None,
                        u_is_verified = False, u_is_certified = False, u_ville = ville,
                        u_secteur = secteur, u_created_at = now, u_updated_at = now\<rparr>
             in (Some row, d1\<lparr>users := users d @ [row]\<rparr>))
          else (None, d1)
      | _ \<Rightarrow> (None, d1))"

definition insert_profile :: "db \<Rightarrow> ident \<Rightarrow> string \<Rightarrow> profile_row option \<times> db" where
  "insert_profile d uid metier =
     (let i = prestataire_profiles_id_seq d; d1 = d\<lparr>prestataire_profiles_id_seq := i + 1\<rparr> in
      if i \<notin> set (map p_id (prestataire_profiles d))
         \<and> uid \<notin> set (map p_user_id (prestataire_profiles d))
         \<and> uid \<in> set (map u_id (users d))
      then
        (let row = \<lparr>p_id = i, p_user_id = uid, p_metier = metier, p_description = None,
                    p_annees_experience = None, p_tarif_horaire = None,
                    p_zone_intervention = None, p_adresse = None, p_portfolio = None,
                    p_disponibilites = None, p_note_moyenne = Some 0, p_nombre_avis = Some 0\<rparr>
         in (Some row, d1\<lparr>prestataire_profiles := prestataire_profiles d @ [row]\<rparr>))
      else (None, d1))"

subsection \<open>POST /api/auth/register\<close>

record register_req =
  rq_email :: "string option"
  rq_password :: "string option"
  rq_full_name :: "string option"
  rq_phone :: "string option"
  rq_role :: "string option"
  rq_ville :: "string option"
  rq_secteur :: "string option"

text \<open>
  The steps of the handler in order: the SELECT by email (an absent email is NULL and
  matches no row), \<open>bcrypt.hash\<close> (which throws on a password that is not a string),
  the INSERT of the user, the INSERT of the profile when \<open>role === 'prestataire'\<close>, the
  signature, the response built from the inserted row.
\<close>

definition register_created :: "env \<Rightarrow> timestamp \<Rightarrow> register_req \<Rightarrow> user_row \<Rightarrow> response" where
  "register_created ev now req newUser =
     \<lparr>status = 201,
      body = RegisterBody msg_utilisateur_cree
               (jwt_sign (u_id newUser) (rq_email req) (rq_role req) (JWT_SECRET ev) now)
               \<lparr>ru_id = u_id newUser, ru_email = u_email newUser,
                ru_full_name = u_full_name newUser, ru_role = u_role newUser,
                ru_ville = u_ville newUser, ru_secteur = u_secteur newUser\<rparr>\<rparr>"

definition post_auth_register ::
  "env \<Rightarrow> timestamp \<Rightarrow> nat \<Rightarrow> register_req \<Rightarrow> db \<Rightarrow> response \<times> db" where
  "post_auth_register ev now salt req d =
     (if [u \<leftarrow> users d. Some (u_email u) = rq_email req] \<noteq> []
      then (\<lparr>status = 400, body = ErrorBody msg_email_utilise\<rparr>, d)
      else
        (case rq_password req of
           None \<Rightarrow> (erreur_serveur, d)
         | Some pw \<Rightarrow>
             (case insert_user d now (rq_email req) (bcrypt_hash ev salt pw) (rq_full_name req)
                     (rq_phone req) (rq_role req) (rq_ville req) (rq_secteur req) of
                (None, d1) \<Rightarrow> (erreur_serveur, d1)
              | (Some newUser, d1) \<Rightarrow>
                  if rq_role req = Some ''prestataire''
                  then (case insert_profile d1 (u_id newUser) metier_general of
                          (None, d2) \<Rightarrow> (erreur_serveur, d2)
                        | (Some _, d2) \<Rightarrow> (register_created ev now req newUser, d2))
                  else (register_created ev now req newUser, d1))))"

subsection \<open>POST /api/auth/login\<close>

record login_req =
  lq_email :: "string option"
  lq_password :: "string option"

definition post_auth_login :: "env \<Rightarrow> timestamp \<Rightarrow> login_req \<Rightarrow> db \<Rightarrow> response \<times> db" where
  "post_auth_login ev now req d =
     (case [u \<leftarrow> users d. Some (u_email u) = lq_email req] of
        [] \<Rightarrow> (\<lparr>status = 401, body = ErrorBody msg_identifiants\<rparr>, d)
      | user # _ \<Rightarrow>
          (case lq_password req of
             None \<Rightarrow> (erreur_serveur, d)
           | Some pw \<Rightarrow>
               if \<not> bcrypt_compare ev pw (u_password user)
               then (\<lparr>status = 401, body = ErrorBody msg_identifiants\<rparr>, d)
               else
                 (\<lparr>status = 200,
                   body = LoginBody msg_connexion
                            (jwt_sign (u_id user) (Some (u_email user)) (Some (u_role user))
                               (JWT_SECRET ev) now)
                            \<lparr>lu_id = u_id user, lu_email = u_email user,
                             lu_full_name = u_full_name user, lu_role = u_role user,
                             lu_is_verified = u_is_verified user,
                             lu_is_certified = u_is_certified user, lu_ville = u_ville user,
                             lu_secteur = u_secteur user,
                             lu_profile_image = u_profile_image user\<rparr>\<rparr>, d)))"

subsection \<open>authenticateToken\<close>

text \<open>
  The middleware reads \<open>authHeader.split(' ')[1]\<close>. The header is modelled after the
  split: a list of words, each either plain text or a token. A missing header, a header
  of one word and an empty second word give 401; a second word that is not a token this
  key signed, or an expired one, gives 403; otherwise the decoded claims become
  \<open>req.user\<close>.
\<close>

datatype word = Text string | Token jwt

definition authenticateToken :: "env \<Rightarrow> timestamp \<Rightarrow> word list option \<Rightarrow> response + claims" where
  "authenticateToken ev now authHeader =
     (case authHeader of
        None \<Rightarrow> Inl \<lparr>status = 401, body = ErrorBody msg_token_requis\<rparr>
      | Some ws \<Rightarrow>
          (case drop 1 ws of
             [] \<Rightarrow> Inl \<lparr>status = 401, body = ErrorBody msg_token_requis\<rparr>
           | Text s # _ \<Rightarrow>
               if s = [] then Inl \<lparr>status = 401, body = ErrorBody msg_token_requis\<rparr>
               else Inl \<lparr>status = 403, body = ErrorBody msg_token_invalide\<rparr>
           | Token t # _ \<Rightarrow>
               (case jwt_verify t (JWT_SECRET ev) now of
                  None \<Rightarrow> Inl \<lparr>status = 403, body = ErrorBody msg_token_invalide\<rparr>
                | Some user \<Rightarrow> Inr user)))"

text \<open>A route declared with the middleware runs its handler only behind it.\<close>

definition authenticated ::
  "env \<Rightarrow> timestamp \<Rightarrow> word list option \<Rightarrow> (claims \<Rightarrow> db \<Rightarrow> response \<times> db) \<Rightarrow> db \<Rightarrow>
   response \<times> db" where
  "authenticated ev now authHeader handler d =
     (case authenticateToken ev now authHeader of
        Inl r \<Rightarrow> (r, d)
      | Inr user \<Rightarrow> handler user d)"

section \<open>Provider directory\<close>

subsection \<open>ILIKE\<close>

text \<open>
  PostgreSQL's LIKE: \<open>%\<close> matches any sequence of characters, \<open>_\<close> any single one, a
  backslash takes the next pattern character literally. A pattern that ends in a lone
  backslash is an error in PostgreSQL; the handlers' patterns end in \<open>%\<close>, so that
  equation (matching nothing here) is never reached through them. ILIKE compares without
  regard to case; letter case is modelled for the ASCII letters.
\<close>

definition backslash :: char where "backslash = CHR 0x5C"

fun like_match :: "string \<Rightarrow> string \<Rightarrow> bool" where
  "like_match [] s = (s = [])"
| "like_match (p # ps) s =
     (if p = CHR ''%'' then
        like_match ps s \<or> (case s of [] \<Rightarrow> False | _ # t \<Rightarrow> like_match (p # ps) t)
      else if p = CHR ''_'' then
        (case s of [] \<Rightarrow> False | _ # t \<Rightarrow> like_match ps t)
      else if p = backslash then
        (case ps of
           [] \<Rightarrow> False
         | q # qs \<Rightarrow> (case s of [] \<Rightarrow> False | c # t \<Rightarrow> c = q \<and> like_match qs t))
      else (case s of [] \<Rightarrow> False | c # t \<Rightarrow> c = p \<and> like_match ps t))"

definition lower :: "char \<Rightarrow> char" where
  "lower c = (let n = (of_char c :: nat) in if 65 \<le> n \<and> n \<le> 90 then char_of (n + 32) else c)"

definition ilike :: "string option \<Rightarrow> string \<Rightarrow> bool" where
  "ilike column pat =
     (case column of None \<Rightarrow> False | Some s \<Rightarrow> like_match (map lower pat) (map lower s))"

subsection \<open>GET /api/prestataires\<close>

text \<open>
  The query parameters \<open>page\<close> and \<open>limit\<close> are modelled as integers (the decimal
  strings of a well-formed request), absent ones taking the defaults of the
  destructuring. \<open>if (ville)\<close> is false for an absent and for an empty parameter.
  \<open>ORDER BY p.note_moyenne DESC\<close> puts NULL first; rows of equal rating are kept in the
  order of the join (PostgreSQL leaves their order open). A negative LIMIT or OFFSET is
  an error of the store.
\<close>

record prestataires_query =
  pq_ville :: "string option"
  pq_metier :: "string option"
  pq_page :: "int option"
  pq_limit :: "int option"

definition users_join_profiles :: "db \<Rightarrow> (user_row \<times> profile_row) list" where
  "users_join_profiles d =
     [(u, p). u \<leftarrow> users d, p \<leftarrow> prestataire_profiles d, u_id u = p_user_id p]"

definition contains_filter :: "string option \<Rightarrow> string option \<Rightarrow> bool" where
  "contains_filter param column =
     (case param of
        None \<Rightarrow> True
      | Some v \<Rightarrow> if v = [] then True else ilike column (''%'' @ v @ ''%''))"

definition prestataires_where :: "prestataires_query \<Rightarrow> user_row \<times> profile_row \<Rightarrow> bool" where
  "prestataires_where q up =
     (u_role (fst up) = ''prestataire''
      \<and> contains_filter (pq_ville q) (u_ville (fst up))
      \<and> contains_filter (pq_metier q) (Some (p_metier (snd up))))"

definition order_by_note_desc :: "(user_row \<times> profile_row) list \<Rightarrow> (user_row \<times> profile_row) list" where
  "order_by_note_desc rows = sort_key (\<lambda>up. map_option uminus (p_note_moyenne (snd up))) rows"

definition listing :: "user_row \<times> profile_row \<Rightarrow> listing_row" where
  "listing up =
     (case up of (u, p) \<Rightarrow>
        \<lparr>l_id = u_id u, l_full_name = u_full_name u, l_profile_image = u_profile_image u,
         l_is_verified = u_is_verified u, l_is_certified = u_is_certified u,
         l_metier = p_metier p, l_description = p_description p,
         l_note_moyenne = p_note_moyenne p, l_nombre_avis = p_nombre_avis p,
         l_zone_intervention = p_zone_intervention p, l_tarif_horaire = p_tarif_horaire p,
         l_annees_experience = p_annees_experience p, l_ville = u_ville u,
         l_secteur = u_secteur u\<rparr>)"

definition prestataires_selected :: "prestataires_query \<Rightarrow> db \<Rightarrow> (user_row \<times> profile_row) list" where
  "prestataires_selected q d =
     order_by_note_desc (filter (prestataires_where q) (users_join_profiles d))"

definition get_prestataires :: "prestataires_query \<Rightarrow> db \<Rightarrow> response \<times> db" where
  "get_prestataires q d =
     (let page = (case pq_page q of None \<Rightarrow> 1 | Some n \<Rightarrow> n);
          limit = (case pq_limit q of None \<Rightarrow> 10 | Some n \<Rightarrow> n);
          offset = (page - 1) * limit
      in if limit < 0 \<or> offset < 0 then (erreur_serveur, d)
         else
           (\<lparr>status = 200,
             body = PrestatairesBody
                      (map listing (take (nat limit) (drop (nat offset) (prestataires_selected q d))))
                      page limit\<rparr>, d))"

subsection \<open>GET /api/prestataires/:id\<close>

definition vstr :: "string option \<Rightarrow> val" where
  "vstr x = (case x of None \<Rightarrow> VNull | Some s \<Rightarrow> VStr s)"

definition vint :: "int option \<Rightarrow> val" where
  "vint x = (case x of None \<Rightarrow> VNull | Some i \<Rightarrow> VInt i)"

definition vdecimal :: "decimal2 option \<Rightarrow> val" where
  "vdecimal x = (case x of None \<Rightarrow> VNull | Some i \<Rightarrow> VDecimal i)"

definition user_columns :: "user_row \<Rightarrow> (string \<times> val) list" where
  "user_columns u =
     [(''id'', VInt (u_id u)), (''email'', VStr (u_email u)), (''password'', VStr (u_password u)),
      (''role'', VStr (u_role u)), (''full_name'', VStr (u_full_name u)),
      (''phone'', vstr (u_phone u)), (''profile_image'', vstr (u_profile_image u)),
      (''is_verified'', VBool (u_is_verified u)), (''is_certified'', VBool (u_is_certified u)),
      (''ville'', vstr (u_ville u)), (''secteur'', vstr (u_secteur u)),
      (''created_at'', VTime (u_created_at u)), (''updated_at'', VTime (u_updated_at u))]"

definition profile_columns :: "profile_row \<Rightarrow> (string \<times> val) list" where
  "profile_columns p =
     [(''id'', VInt (p_id p)), (''user_id'', VInt (p_user_id p)), (''metier'', VStr (p_metier p)),
      (''description'', vstr (p_description p)),
      (''annees_experience'', vint (p_annees_experience p)),
      (''tarif_horaire'', vdecimal (p_tarif_horaire p)),
      (''zone_intervention'', vstr (p_zone_intervention p)), (''adresse'', vstr (p_adresse p)),
      (''portfolio'', vstr (p_portfolio p)), (''disponibilites'', vstr (p_disponibilites p)),
      (''note_moyenne'', vdecimal (p_note_moyenne p)), (''nombre_avis'', vint (p_nombre_avis p))]"

text \<open>\<open>SELECT u.*, p.*\<close> as the driver's row object: the columns of \<open>p\<close> are assigned last.\<close>

definition joined_row :: "user_row \<Rightarrow> profile_row \<Rightarrow> obj" where
  "joined_row u p = map_of (user_columns u) ++ map_of (profile_columns p)"

definition prestataireResult :: "ident \<Rightarrow> db \<Rightarrow> obj list" where
  "prestataireResult i d =
     [joined_row u p. (u, p) \<leftarrow> users_join_profiles d, u_id u = i \<and> u_role u = ''prestataire'']"

text \<open>\<open>rows[0].id\<close> as a query parameter: an integer, or NULL.\<close>

definition row_id :: "obj \<Rightarrow> ident option" where
  "row_id row = (case row ''id'' of Some (VInt i) \<Rightarrow> Some i | _ \<Rightarrow> None)"

definition servicesResult :: "ident option \<Rightarrow> db \<Rightarrow> service_row list" where
  "servicesResult pid d =
     sort_key (\<lambda>s. - int (s_created_at s)) [s \<leftarrow> services d. Some (s_prestataire_id s) = pid]"

definition avisResult :: "ident option \<Rightarrow> db \<Rightarrow> avis_row list" where
  "avisResult pid d =
     take 20
       (sort_key (\<lambda>a. - int (r_created_at (a_review a)))
          [\<lparr>a_review = r, a_client_name = u_full_name u, a_client_image = u_profile_image u\<rparr>.
             r \<leftarrow> reviews d, b \<leftarrow> bookings d, r_booking_id r = b_id b,
             u \<leftarrow> users d, b_client_id b = u_id u, Some (b_prestataire_id b) = pid])"

text \<open>The handler of server.js answers with the joined row as it is.\<close>

definition get_prestataire :: "ident \<Rightarrow> db \<Rightarrow> response \<times> db" where
  "get_prestataire i d =
     (case prestataireResult i d of
        [] \<Rightarrow> (\<lparr>status = 404, body = ErrorBody msg_prestataire_non_trouve\<rparr>, d)
      | row # _ \<Rightarrow>
          (\<lparr>status = 200,
            body = PrestataireBody row (servicesResult (row_id row) d) (avisResult (row_id row) d)\<rparr>,
           d))"

text \<open>
  The second copy of the server (src/unnamed/part\_000) has the same handler with one more
  statement, \<open>const { password: _, ...prestataireWithoutPassword } = rows[0]\<close>.
\<close>

definition get_prestataire_part_000 :: "ident \<Rightarrow> db \<Rightarrow> response \<times> db" where
  "get_prestataire_part_000 i d =
     (case prestataireResult i d of
        [] \<Rightarrow> (\<lparr>status = 404, body = ErrorBody msg_prestataire_non_trouve\<rparr>, d)
      | row # _ \<Rightarrow>
          (\<lparr>status = 200,
            body = PrestataireBody (row(''password'' := None)) (servicesResult (row_id row) d)
                     (avisResult (row_id row) d)\<rparr>,
           d))"

subsection \<open>PUT /api/prestataires/profile\<close>

record profile_req =
  fq_metier :: "string option"
  fq_description :: "string option"
  fq_annees_experience :: "int option"
  fq_tarif_horaire :: "decimal2 option"
  fq_zone_intervention :: "string option"
  fq_adresse :: "string option"
  fq_portfolio :: "string option"
  fq_disponibilites :: "string option"

definition put_prestataires_profile :: "profile_req \<Rightarrow> claims \<Rightarrow> db \<Rightarrow> response \<times> db" where
  "put_prestataires_profile req user d =
     (case [p \<leftarrow> prestataire_profiles d. p_user_id p = userId user] of
        [] \<Rightarrow> (\<lparr>status = 404, body = ErrorBody msg_profil_non_trouve\<rparr>, d)
      | p0 # _ \<Rightarrow>
          (case fq_metier req of
             None \<Rightarrow> (erreur_serveur, d)
           | Some metier \<Rightarrow>
               (let upd = (\<lambda>p. p\<lparr>p_metier := metier, p_description := fq_description req,
                                 p_annees_experience := fq_annees_experience req,
                                 p_tarif_horaire := fq_tarif_horaire req,
                                 p_zone_intervention := fq_zone_intervention req,
                                 p_adresse := fq_adresse req, p_portfolio := fq_portfolio req,
                                 p_disponibilites := fq_disponibilites req\<rparr>)
                in (\<lparr>status = 200, body = ProfileBody msg_profil_mis_a_jour (upd p0)\<rparr>,
                    d\<lparr>prestataire_profiles :=
                        map (\<lambda>p. if p_user_id p = userId user then upd p else p)
                          (prestataire_profiles d)\<rparr>))))"

section \<open>Services\<close>

record service_req =
  sq_nom_service :: "string option"
  sq_description :: "string option"
  sq_prix :: "decimal2 option"
  sq_duree_estimee :: "int option"
  sq_categorie :: "string option"

definition insert_service :: "db \<Rightarrow> timestamp \<Rightarrow> ident \<Rightarrow> service_req \<Rightarrow> service_row option \<times> db" where
  "insert_service d now pid req =
     (let i = services_id_seq d; d1 = d\<lparr>services_id_seq := i + 1\<rparr> in
      case sq_nom_service req of
        None \<Rightarrow> (None, d1)
      | Some nom \<Rightarrow>
          if i \<notin> set (map s_id (services d)) \<and> pid \<in> set (map p_id (prestataire_profiles d))
          then
            (let row = \<lparr>s_id = i, s_prestataire_id = pid, s_nom_service = nom,
                        s_description = sq_description req, s_prix = sq_prix req,
                        s_duree_estimee = sq_duree_estimee req, s_categorie = sq_categorie req,
                        s_created_at = now\<rparr>
             in (Some row, d1\<lparr>services := services d @ [row]\<rparr>))
          else (None, d1))"

text \<open>
  \<open>userResult.rows[0].role\<close> throws when no user has the id of the token; the \<open>catch\<close>
  answers 500.
\<close>

definition post_services :: "timestamp \<Rightarrow> service_req \<Rightarrow> claims \<Rightarrow> db \<Rightarrow> response \<times> db" where
  "post_services now req user d =
     (case [u \<leftarrow> users d. u_id u = userId user] of
        [] \<Rightarrow> (erreur_serveur, d)
      | u # _ \<Rightarrow>
          if u_role u \<noteq> ''prestataire''
          then (\<lparr>status = 403, body = ErrorBody msg_acces_reserve\<rparr>, d)
          else
            (case [p \<leftarrow> prestataire_profiles d. p_user_id p = userId user] of
               [] \<Rightarrow> (\<lparr>status = 404, body = ErrorBody msg_profil_prestataire_non_trouve\<rparr>, d)
             | p # _ \<Rightarrow>
                 (case insert_service d now (p_id p) req of
                    (None, d1) \<Rightarrow> (erreur_serveur, d1)
                  | (Some row, d1) \<Rightarrow>
                      (\<lparr>status = 201, body = ServiceBody msg_service_cree row\<rparr>, d1))))"

section \<open>Bookings\<close>

record booking_req =
  bq_prestataire_id :: "ident option"
  bq_service_id :: "ident option"
  bq_date_reservation :: "timestamp option"
  bq_adresse_prestation :: "string option"
  bq_notes :: "string option"

definition statut_check :: "string option \<Rightarrow> bool" where
  "statut_check st =
     (case st of
        None \<Rightarrow> True
      | Some s \<Rightarrow> s = ''en_attente'' \<or> s = ''confirme'' \<or> s = ''annule'' \<or> s = ''termine'')"

definition insert_booking :: "db \<Rightarrow> timestamp \<Rightarrow> ident \<Rightarrow> booking_req \<Rightarrow> booking_row option \<times> db" where
  "insert_booking d now client req =
     (let i = bookings_id_seq d; d1 = d\<lparr>bookings_id_seq := i + 1\<rparr> in
      case (bq_prestataire_id req, bq_service_id req, bq_date_reservation req) of
        (Some pid, Some sid, Some date) \<Rightarrow>
          if i \<notin> set (map b_id (bookings d)) \<and> client \<in> set (map u_id (users d))
             \<and> pid \<in> set (map p_id (prestataire_profiles d))
             \<and> sid \<in> set (map s_id (services d))
          then
            (let row = \<lparr>b_id = i, b_client_id = client, b_prestataire_id = pid,
                        b_service_id = sid, b_date_reservation = date,
                        b_statut = Some ''en_attente'',
                        b_adresse_prestation = bq_adresse_prestation req, b_prix_final = None,
                        b_notes_client = bq_notes req, b_created_at = now, b_updated_at = now\<rparr>
             in (Some row, d1\<lparr>bookings := bookings d @ [row]\<rparr>))
          else (None, d1)
      | _ \<Rightarrow> (None, d1))"

definition post_bookings :: "timestamp \<Rightarrow> booking_req \<Rightarrow> claims \<Rightarrow> db \<Rightarrow> response \<times> db" where
  "post_bookings now req user d =
     (case insert_booking d now (userId user) req of
        (None, d1) \<Rightarrow> (erreur_serveur, d1)
      | (Some row, d1) \<Rightarrow> (\<lparr>status = 201, body = BookingBody msg_reservation_creee row\<rparr>, d1))"

text \<open>
  PUT /api/bookings/:id/status. The UPDATE touches the rows whose id is the parameter; the
  CHECK of \<open>statut\<close> is evaluated on the rows it rewrites, so an id that matches nothing
  gives 404 whatever the value, and a value the CHECK rejects aborts the statement and
  leaves the table as it was.
\<close>

definition put_bookings_status ::
  "timestamp \<Rightarrow> ident \<Rightarrow> string option \<Rightarrow> claims \<Rightarrow> db \<Rightarrow> response \<times> db" where
  "put_bookings_status now i statut user d =
     (case [b \<leftarrow> bookings d. b_id b = i] of
        [] \<Rightarrow> (\<lparr>status = 404, body = ErrorBody msg_reservation_non_trouvee\<rparr>, d)
      | b0 # _ \<Rightarrow>
          if \<not> statut_check statut then (erreur_serveur, d)
          else
            (let upd = (\<lambda>b. b\<lparr>b_statut := statut, b_updated_at := now\<rparr>)
             in (\<lparr>status = 200, body = BookingBody msg_statut_mis_a_jour (upd b0)\<rparr>,
                 d\<lparr>bookings := map (\<lambda>b. if b_id b = i then upd b else b) (bookings d)\<rparr>)))"

section \<open>Reviews\<close>

record review_req =
  vq_booking_id :: "ident option"
  vq_note :: "int option"
  vq_commentaire :: "string option"

definition note_check :: "int option \<Rightarrow> bool" where
  "note_check n = (case n of None \<Rightarrow> True | Some v \<Rightarrow> 1 \<le> v \<and> v \<le> 5)"

definition insert_review ::
  "db \<Rightarrow> timestamp \<Rightarrow> ident option \<Rightarrow> int option \<Rightarrow> string option \<Rightarrow> review_row option \<times> db" where
  "insert_review d now booking note commentaire =
     (let i = reviews_id_seq d; d1 = d\<lparr>reviews_id_seq := i + 1\<rparr> in
      case booking of
        None \<Rightarrow> (None, d1)
      | Some bid \<Rightarrow>
          if i \<notin> set (map r_id (reviews d)) \<and> bid \<notin> set (map r_booking_id (reviews d))
             \<and> bid \<in> set (map b_id (bookings d)) \<and> note_check note
          then
            (let row = \<lparr>r_id = i, r_booking_id = bid, r_note = note,
                        r_commentaire = commentaire, r_photos_review = None,
                        r_created_at = now\<rparr>
             in (Some row, d1\<lparr>reviews := reviews d @ [row]\<rparr>))
          else (None, d1))"

subsection \<open>The aggregate of a provider\<close>

text \<open>
  \<open>AVG\<close> skips NULL and is NULL when nothing is left; \<open>COUNT(*)\<close> counts rows. The cast
  \<open>::numeric(3,2)\<close> rounds to two decimals, ties away from zero, and fails when the
  rounded value does not fit three digits (10.00 and above in absolute value). A rating
  is kept in hundredths, so 4.50 is 450. The average is taken exactly, as a rational; the
  finite scale at which the database delivers it before the cast is not modelled.
\<close>

definition reviews_join_bookings :: "db \<Rightarrow> ident \<Rightarrow> (review_row \<times> booking_row) list" where
  "reviews_join_bookings d pid =
     [(r, b). r \<leftarrow> reviews d, b \<leftarrow> bookings d, r_booking_id r = b_id b,
              b_prestataire_id b = pid]"

definition sql_avg :: "int option list \<Rightarrow> rat option" where
  "sql_avg xs =
     (let vs = [v. Some v \<leftarrow> xs]
      in if vs = [] then None else Some (of_int (sum_list vs) / of_int (int (length vs))))"

definition numeric_3_2 :: "rat \<Rightarrow> decimal2 option" where
  "numeric_3_2 x =
     (let h = (if 0 \<le> x then \<lfloor>x * 100 + 1 / 2\<rfloor> else - \<lfloor>- x * 100 + 1 / 2\<rfloor>)
      in if \<bar>h\<bar> < 1000 then Some h else None)"

text \<open>The new \<open>note_moyenne\<close> of profile \<open>pid\<close>; the outer \<open>None\<close> is the failed cast.\<close>

definition avg_note :: "db \<Rightarrow> ident \<Rightarrow> decimal2 option option" where
  "avg_note d pid =
     (case sql_avg (map (\<lambda>rb. r_note (fst rb)) (reviews_join_bookings d pid)) of
        None \<Rightarrow> Some None
      | Some x \<Rightarrow> (case numeric_3_2 x of None \<Rightarrow> None | Some h \<Rightarrow> Some (Some h)))"

definition count_avis :: "db \<Rightarrow> ident \<Rightarrow> int" where
  "count_avis d pid = int (length (reviews_join_bookings d pid))"

definition update_note_moyenne :: "db \<Rightarrow> ident \<Rightarrow> db option" where
  "update_note_moyenne d pid =
     (if [p \<leftarrow> prestataire_profiles d. p_id p = pid] \<noteq> [] \<and> avg_note d pid = None then None
      else
        Some (d\<lparr>prestataire_profiles :=
                  map (\<lambda>p. if p_id p = pid
                            then p\<lparr>p_note_moyenne := (case avg_note d (p_id p) of
                                                        None \<Rightarrow> None | Some a \<Rightarrow> a),
                                   p_nombre_avis := Some (count_avis d (p_id p))\<rparr>
                            else p)
                    (prestataire_profiles d)\<rparr>))"

subsection \<open>POST /api/reviews\<close>

definition bookingResult :: "review_req \<Rightarrow> claims \<Rightarrow> db \<Rightarrow> booking_row list" where
  "bookingResult req user d =
     [b \<leftarrow> bookings d. Some (b_id b) = vq_booking_id req \<and> b_client_id b = userId user
                         \<and> b_statut b = Some ''termine'']"

definition existingReview :: "review_req \<Rightarrow> db \<Rightarrow> review_row list" where
  "existingReview req d = [r \<leftarrow> reviews d. Some (r_booking_id r) = vq_booking_id req]"

definition post_reviews :: "timestamp \<Rightarrow> review_req \<Rightarrow> claims \<Rightarrow> db \<Rightarrow> response \<times> db" where
  "post_reviews now req user d =
     (case bookingResult req user d of
        [] \<Rightarrow> (\<lparr>status = 403, body = ErrorBody msg_non_autorise\<rparr>, d)
      | booking # _ \<Rightarrow>
          if existingReview req d \<noteq> []
          then (\<lparr>status = 400, body = ErrorBody msg_avis_existe\<rparr>, d)
          else
            (case insert_review d now (vq_booking_id req) (vq_note req) (vq_commentaire req) of
               (None, d1) \<Rightarrow> (erreur_serveur, d1)
             | (Some review, d1) \<Rightarrow>
                 (case update_note_moyenne d1 (b_prestataire_id booking) of
                    None \<Rightarrow> (erreur_serveur, d1)
                  | Some d2 \<Rightarrow>
                      (\<lparr>status = 201, body = ReviewBody msg_avis_ajoute review\<rparr>, d2))))"

section \<open>Messages\<close>

record message_req =
  mq_booking_id :: "ident option"
  mq_message :: "string option"

definition insert_message :: "db \<Rightarrow> timestamp \<Rightarrow> ident \<Rightarrow> message_req \<Rightarrow> message_row option \<times> db" where
  "insert_message d now sender req =
     (let i = messages_id_seq d; d1 = d\<lparr>messages_id_seq := i + 1\<rparr> in
      case (mq_booking_id req, mq_message req) of
        (Some bid, Some text) \<Rightarrow>
          if i \<notin> set (map m_id (messages d)) \<and> bid \<in> set (map b_id (bookings d))
             \<and> sender \<in> set (map u_id (users d))
          then
            (let row = \<lparr>m_id = i, m_booking_id = bid, m_expediteur_id = sender,
                        m_message = text, m_lu = False, m_created_at = now\<rparr>
             in (Some row, d1\<lparr>messages := messages d @ [row]\<rparr>))
          else (None, d1)
      | _ \<Rightarrow> (None, d1))"

definition post_messages :: "timestamp \<Rightarrow> message_req \<Rightarrow> claims \<Rightarrow> db \<Rightarrow> response \<times> db" where
  "post_messages now req user d =
     (case insert_message d now (userId user) req of
        (None, d1) \<Rightarrow> (erreur_serveur, d1)
      | (Some row, d1) \<Rightarrow> (\<lparr>status = 201, body = MessageBody msg_message_envoye row\<rparr>, d1))"

section \<open>The application\<close>

text \<open>
  One constructor per route of server.js that the properties below speak about or that
  writes to the store; the remaining routes (GET /api/bookings, GET /api/messages/:id)
  only SELECT. A request carries the clock reading at which it is served and, on a route
  behind \<open>authenticateToken\<close>, its Authorization header.
\<close>

datatype request =
    Register timestamp nat register_req
  | Login timestamp login_req
  | GetPrestataires prestataires_query
  | GetPrestataire ident
  | PutProfile timestamp "word list option" profile_req
  | PostServices timestamp "word list option" service_req
  | PostBookings timestamp "word list option" booking_req
  | PutBookingStatus timestamp "word list option" ident "string option"
  | PostReviews timestamp "word list option" review_req
  | PostMessages timestamp "word list option" message_req

fun app :: "env \<Rightarrow> request \<Rightarrow> db \<Rightarrow> response \<times> db" where
  "app ev (Register now salt req) d = post_auth_register ev now salt req d"
| "app ev (Login now req) d = post_auth_login ev now req d"
| "app ev (GetPrestataires q) d = get_prestataires q d"
| "app ev (GetPrestataire i) d = get_prestataire i d"
| "app ev (PutProfile now h req) d = authenticated ev now h (put_prestataires_profile req) d"
| "app ev (PostServices now h req) d = authenticated ev now h (post_services now req) d"
| "app ev (PostBookings now h req) d = authenticated ev now h (post_bookings now req) d"
| "app ev (PutBookingStatus now h i st) d =
     authenticated ev now h (put_bookings_status now i st) d"
| "app ev (PostReviews now h req) d = authenticated ev now h (post_reviews now req) d"
| "app ev (PostMessages now h req) d = authenticated ev now h (post_messages now req) d"

text \<open>The store after a sequence of requests, served one after the other.\<close>

fun serve :: "env \<Rightarrow> request list \<Rightarrow> db \<Rightarrow> db" where
  "serve ev [] d = d"
| "serve ev (rq # rqs) d = serve ev rqs (snd (app ev rq d))"

section \<open>The constraints of the schema as an invariant\<close>

text \<open>
  One predicate per table: the rows, the table's sequence, and the key sets of the tables
  it references. \<open>schema_ok\<close> is what the schema of \<open>initDatabase\<close> guarantees of every
  stored state: keys are unique and below the sequence, references point at stored rows,
  the CHECKs hold.
\<close>

definition users_inv :: "user_row list \<Rightarrow> ident \<Rightarrow> bool" where
  "users_inv us sq \<longleftrightarrow>
     distinct (map u_id us) \<and> distinct (map u_email us)
     \<and> (\<forall>u \<in> set us. u_id u < sq \<and> (u_role u = ''client'' \<or> u_role u = ''prestataire''))"

definition profiles_inv :: "profile_row list \<Rightarrow> ident \<Rightarrow> ident set \<Rightarrow> bool" where
  "profiles_inv ps sq U \<longleftrightarrow>
     distinct (map p_id ps) \<and> distinct (map p_user_id ps)
     \<and> (\<forall>p \<in> set ps. p_id p < sq \<and> p_user_id p \<in> U)"

definition services_inv :: "service_row list \<Rightarrow> ident \<Rightarrow> ident set \<Rightarrow> bool" where
  "services_inv ss sq P \<longleftrightarrow>
     distinct (map s_id ss) \<and> (\<forall>s \<in> set ss. s_id s < sq \<and> s_prestataire_id s \<in> P)"

definition bookings_inv ::
  "booking_row list \<Rightarrow> ident \<Rightarrow> ident set \<Rightarrow> ident set \<Rightarrow> ident set \<Rightarrow> bool" where
  "bookings_inv bs sq U P S \<longleftrightarrow>
     distinct (map b_id bs)
     \<and> (\<forall>b \<in> set bs. b_id b < sq \<and> b_client_id b \<in> U \<and> b_prestataire_id b \<in> P
                       \<and> b_service_id b \<in> S \<and> statut_check (b_statut b))"

definition reviews_inv :: "review_row list \<Rightarrow> ident \<Rightarrow> ident set \<Rightarrow> bool" where
  "reviews_inv rs sq B \<longleftrightarrow>
     distinct (map r_id rs) \<and> distinct (map r_booking_id rs)
     \<and> (\<forall>r \<in> set rs. r_id r < sq \<and> r_booking_id r \<in> B \<and> note_check (r_note r))"

definition messages_inv :: "message_row list \<Rightarrow> ident \<Rightarrow> ident set \<Rightarrow> ident set \<Rightarrow> bool" where
  "messages_inv ms sq B U \<longleftrightarrow>
     distinct (map m_id ms)
     \<and> (\<forall>m \<in> set ms. m_id m < sq \<and> m_booking_id m \<in> B \<and> m_expediteur_id m \<in> U)"

definition schema_ok :: "db \<Rightarrow> bool" where
  "schema_ok d \<longleftrightarrow>
     users_inv (users d) (users_id_seq d)
     \<and> profiles_inv (prestataire_profiles d) (prestataire_profiles_id_seq d)
         (u_id ` set (users d))
     \<and> services_inv (services d) (services_id_seq d) (p_id ` set (prestataire_profiles d))
     \<and> bookings_inv (bookings d) (bookings_id_seq d) (u_id ` set (users d))
         (p_id ` set (prestataire_profiles d)) (s_id ` set (services d))
     \<and> reviews_inv (reviews d) (reviews_id_seq d) (b_id ` set (bookings d))
     \<and> messages_inv (messages d) (messages_id_seq d) (b_id ` set (bookings d))
         (u_id ` set (users d))"

section \<open>The aggregate as the specification words it\<close>

text \<open>
  The ratings of a provider are the ratings of the reviews joined through the provider's
  bookings, a review without a rating contributing none. \<open>mean_2dp\<close> is their
  arithmetic mean rounded to two decimals, in hundredths.
\<close>

definition ratings :: "db \<Rightarrow> ident \<Rightarrow> int list" where
  "ratings d pid = [v. Some v \<leftarrow> map (\<lambda>rb. r_note (fst rb)) (reviews_join_bookings d pid)]"

definition mean_2dp :: "int list \<Rightarrow> decimal2" where
  "mean_2dp vs = round (of_int (sum_list vs) * 100 / of_int (int (length vs)) :: rat)"

section \<open>A run of the application\<close>

text \<open>
  The scenario of the specification, used below wherever a property is evaluated on
  concrete data: provider A registers and offers a service, client B registers and books
  it, A marks the booking \<open>termine\<close>. The environment stands in for the two libraries
  with a hash that is easy to read.
\<close>

definition example_env :: env where
  "example_env =
     \<lparr>JWT_SECRET = ''secret'', bcrypt_hash = (\<lambda>salt pw. ''$2a$10$'' @ pw),
      bcrypt_compare = (\<lambda>pw h. h = ''$2a$10$'' @ pw)\<rparr>"

definition bearer :: "ident \<Rightarrow> string \<Rightarrow> string \<Rightarrow> word list option" where
  "bearer uid em ro =
     Some [Text ''Bearer'', Token (jwt_sign uid (Some em) (Some ro) ''secret'' 0)]"


definition user_b :: claims where
  "user_b = \<lparr>userId = 2, email = Some ''b@x.bf'', role = Some ''client'', iat = 0,
             exp = 86400\<rparr>"

definition register_a :: register_req where
  "register_a =
     \<lparr>rq_email = Some ''a@x.bf'', rq_password = Some ''pa'', rq_full_name = Some ''A'',
      rq_phone = None, rq_role = Some ''prestataire'', rq_ville = Some ''Ouaga'',
      rq_secteur = None\<rparr>"

definition register_b :: register_req where
  "register_b =
     \<lparr>rq_email = Some ''b@x.bf'', rq_password = Some ''pb'', rq_full_name = Some ''B'',
      rq_phone = None, rq_role = Some ''client'', rq_ville = None, rq_secteur = None\<rparr>"

definition scenario :: "request list" where
  "scenario =
     [Register 0 0 register_a,
      PostServices 1 (bearer 1 ''a@x.bf'' ''prestataire'')
        \<lparr>sq_nom_service = Some ''Plomberie'', sq_description = None, sq_prix = Some 500000,
         sq_duree_estimee = None, sq_categorie = None\<rparr>,
      Register 2 0 register_b,
      PostBookings 3 (bearer 2 ''b@x.bf'' ''client'')
        \<lparr>bq_prestataire_id = Some 1, bq_service_id = Some 1, bq_date_reservation = Some 100,
         bq_adresse_prestation = None, bq_notes = None\<rparr>,
      PutBookingStatus 4 (bearer 1 ''a@x.bf'' ''prestataire'') 1 (Some ''termine'')]"

definition example_users :: "user_row list" where
  "example_users =
     [\<lparr>u_id = 1, u_email = ''a@x.bf'', u_password = ''$2a$10$pa'', u_role = ''prestataire'',
       u_full_name = ''A'', u_phone = None, u_profile_image = None, u_is_verified = False,
       u_is_certified = False, u_ville = Some ''Ouaga'', u_secteur = None, u_created_at = 0,
       u_updated_at = 0\<rparr>,
      \<lparr>u_id = 2, u_email = ''b@x.bf'', u_password = ''$2a$10$pb'', u_role = ''client'',
       u_full_name = ''B'', u_phone = None, u_profile_image = None, u_is_verified = False,
       u_is_certified = False, u_ville = None, u_secteur = None, u_created_at = 2,
       u_updated_at = 2\<rparr>]"

definition example_profile :: profile_row where
  "example_profile =
     \<lparr>p_id = 1, p_user_id = 1, p_metier = metier_general, p_description = None,
      p_annees_experience = None, p_tarif_horaire = None, p_zone_intervention = None,
      p_adresse = None, p_portfolio = None, p_disponibilites = None, p_note_moyenne = Some 0,
      p_nombre_avis = Some 0\<rparr>"

definition example_booking :: booking_row where
  "example_booking =
     \<lparr>b_id = 1, b_client_id = 2, b_prestataire_id = 1, b_service_id = 1,
      b_date_reservation = 100, b_statut = Some ''termine'', b_adresse_prestation = None,
      b_prix_final = None, b_notes_client = None, b_created_at = 3, b_updated_at = 4\<rparr>"

definition example_db :: db where
  "example_db =
     \<lparr>users = example_users, prestataire_profiles = [example_profile],
      services =
        [\<lparr>s_id = 1, s_prestataire_id = 1, s_nom_service = ''Plomberie'', s_description = None,
          s_prix = Some 500000, s_duree_estimee = None, s_categorie = None, s_created_at = 1\<rparr>],
      bookings = [example_booking], reviews = [], messages = [], users_id_seq = 3,
      prestataire_profiles_id_seq = 2, services_id_seq = 2, bookings_id_seq = 2,
      reviews_id_seq = 1, messages_id_seq = 1\<rparr>"

text \<open>
  Requests and readers used in the examples: a review of the scenario's booking, a login,
  the registrations the schema accepts, a registration with a role the schema refuses, the
  row of a detail answer, and a city filter without LIKE metacharacters.
\<close>

definition review_of :: "int option \<Rightarrow> review_req" where
  "review_of n = \<lparr>vq_booking_id = Some 1, vq_note = n, vq_commentaire = None\<rparr>"




definition prestataire_of :: "response \<Rightarrow> obj" where
  "prestataire_of resp = (case body resp of PrestataireBody row ss avis \<Rightarrow> row | _ \<Rightarrow> Map.empty)"



section \<open>The aggregate along a run\<close>

text \<open>
  What the two aggregate columns of a profile hold in a stored state: the number of reviews
  joined through the provider's bookings, and the column default 0.00 while there is none,
  else the rounded mean of the ratings present (NULL when no joined review carries one).
  \<open>aggregate_ok\<close> says that every profile holds exactly that.
\<close>

definition aggregate_of :: "db \<Rightarrow> ident \<Rightarrow> int option \<times> decimal2 option" where
  "aggregate_of d pid =
     (Some (count_avis d pid),
      if reviews_join_bookings d pid = [] then Some 0
      else if ratings d pid = [] then None else Some (mean_2dp (ratings d pid)))"

definition aggregate_ok :: "db \<Rightarrow> bool" where
  "aggregate_ok d \<longleftrightarrow>
     (\<forall>p \<in> set (prestataire_profiles d).
         (p_nombre_avis p, p_note_moyenne p) = aggregate_of d (p_id p))"

text \<open>
  A request is a successful review creation for a provider when it is a review request
  answered 201 whose booking belongs to that provider; \<open>reviews_created\<close> counts them
  along a run of requests.
\<close>

definition review_created_for :: "env \<Rightarrow> request \<Rightarrow> db \<Rightarrow> ident \<Rightarrow> bool" where
  "review_created_for ev rq d pid \<longleftrightarrow>
     (case rq of
        PostReviews now h req \<Rightarrow>
          status (fst (app ev rq d)) = 201
          \<and> (\<exists>b \<in> set (bookings d). Some (b_id b) = vq_booking_id req
                                    \<and> b_prestataire_id b = pid)
      | _ \<Rightarrow> False)"

fun reviews_created :: "env \<Rightarrow> request list \<Rightarrow> db \<Rightarrow> ident \<Rightarrow> nat" where
  "reviews_created ev [] d pid = 0"
| "reviews_created ev (rq # rqs) d pid =
     (if review_created_for ev rq d pid then 1 else 0)
     + reviews_created ev rqs (snd (app ev rq d)) pid"

text \<open>The scenario followed by B's review, rated 5, of the finished booking.\<close>

definition scenario_review :: "request list" where
  "scenario_review =
     scenario @ [PostReviews 5 (bearer 2 ''b@x.bf'' ''client'') (review_of (Some 5))]"

section \<open>Every request preserves the constraints of the schema\<close>


lemma schema_ok_init: "schema_ok initDatabase"
  by (simp add: schema_ok_def users_inv_def profiles_inv_def services_inv_def bookings_inv_def
      reviews_inv_def messages_inv_def initDatabase_def)

lemma users_inv_mono: "users_inv us sq \<Longrightarrow> sq \<le> sq' \<Longrightarrow> users_inv us sq'"
  by (fastforce simp: users_inv_def)

lemma users_inv_snoc:
  "users_inv us sq \<Longrightarrow> u_id row = sq \<Longrightarrow> u_email row \<notin> set (map u_email us) \<Longrightarrow>
   u_role row = ''client'' \<or> u_role row = ''prestataire'' \<Longrightarrow> users_inv (us @ [row]) (sq + 1)"
  by (fastforce simp: users_inv_def)

lemma profiles_inv_mono:
  "profiles_inv ps sq U \<Longrightarrow> sq \<le> sq' \<Longrightarrow> U \<subseteq> U' \<Longrightarrow> profiles_inv ps sq' U'"
  by (fastforce simp: profiles_inv_def)

lemma profiles_inv_snoc:
  "profiles_inv ps sq U \<Longrightarrow> p_id row = sq \<Longrightarrow> p_user_id row \<notin> set (map p_user_id ps) \<Longrightarrow>
   p_user_id row \<in> U \<Longrightarrow> profiles_inv (ps @ [row]) (sq + 1) U"
  by (fastforce simp: profiles_inv_def)

lemma profiles_inv_map:
  "profiles_inv ps sq U \<Longrightarrow> (\<And>p. p_id (f p) = p_id p) \<Longrightarrow> (\<And>p. p_user_id (f p) = p_user_id p) \<Longrightarrow>
   profiles_inv (map f ps) sq U"
  by (simp add: profiles_inv_def comp_def)

lemma services_inv_mono:
  "services_inv ss sq P \<Longrightarrow> sq \<le> sq' \<Longrightarrow> P \<subseteq> P' \<Longrightarrow> services_inv ss sq' P'"
  by (fastforce simp: services_inv_def)

lemma services_inv_snoc:
  "services_inv ss sq P \<Longrightarrow> s_id row = sq \<Longrightarrow> s_prestataire_id row \<in> P \<Longrightarrow>
   services_inv (ss @ [row]) (sq + 1) P"
  by (fastforce simp: services_inv_def)

lemma bookings_inv_mono:
  "bookings_inv bs sq U P S \<Longrightarrow> sq \<le> sq' \<Longrightarrow> U \<subseteq> U' \<Longrightarrow> P \<subseteq> P' \<Longrightarrow> S \<subseteq> S' \<Longrightarrow>
   bookings_inv bs sq' U' P' S'"
  by (fastforce simp: bookings_inv_def)

lemma bookings_inv_snoc:
  "bookings_inv bs sq U P S \<Longrightarrow> b_id row = sq \<Longrightarrow> b_client_id row \<in> U \<Longrightarrow>
   b_prestataire_id row \<in> P \<Longrightarrow> b_service_id row \<in> S \<Longrightarrow> statut_check (b_statut row) \<Longrightarrow>
   bookings_inv (bs @ [row]) (sq + 1) U P S"
  by (fastforce simp: bookings_inv_def)

lemma reviews_inv_mono:
  "reviews_inv rs sq B \<Longrightarrow> sq \<le> sq' \<Longrightarrow> B \<subseteq> B' \<Longrightarrow> reviews_inv rs sq' B'"
  by (fastforce simp: reviews_inv_def)

lemma reviews_inv_snoc:
  "reviews_inv rs sq B \<Longrightarrow> r_id row = sq \<Longrightarrow> r_booking_id row \<notin> set (map r_booking_id rs) \<Longrightarrow>
   r_booking_id row \<in> B \<Longrightarrow> note_check (r_note row) \<Longrightarrow> reviews_inv (rs @ [row]) (sq + 1) B"
  by (fastforce simp: reviews_inv_def)

lemma messages_inv_mono:
  "messages_inv ms sq B U \<Longrightarrow> sq \<le> sq' \<Longrightarrow> B \<subseteq> B' \<Longrightarrow> U \<subseteq> U' \<Longrightarrow> messages_inv ms sq' B' U'"
  by (fastforce simp: messages_inv_def)

lemma messages_inv_snoc:
  "messages_inv ms sq B U \<Longrightarrow> m_id row = sq \<Longrightarrow> m_booking_id row \<in> B \<Longrightarrow>
   m_expediteur_id row \<in> U \<Longrightarrow> messages_inv (ms @ [row]) (sq + 1) B U"
  by (fastforce simp: messages_inv_def)

lemma insert_user_None:
  "insert_user d now em h fn ph ro vi se = (None, d1) \<Longrightarrow>
   d1 = d\<lparr>users_id_seq := users_id_seq d + 1\<rparr>"
  by (auto simp: insert_user_def Let_def split: option.splits if_splits)

lemma insert_user_Some:
  "insert_user d now em h fn ph ro vi se = (Some row, d1) \<Longrightarrow>
   d1 = d\<lparr>users_id_seq := users_id_seq d + 1, users := users d @ [row]\<rparr>
   \<and> u_id row = users_id_seq d \<and> em = Some (u_email row) \<and> ro = Some (u_role row)
   \<and> fn = Some (u_full_name row) \<and> u_password row = h \<and> u_ville row = vi
   \<and> u_secteur row = se
   \<and> u_email row \<notin> set (map u_email (users d))
   \<and> (u_role row = ''client'' \<or> u_role row = ''prestataire'')"
  by (auto simp: insert_user_def Let_def split: option.splits if_splits)

lemma insert_user_schema_ok:
  assumes "schema_ok d" "insert_user d now em h fn ph ro vi se = (res, d1)"
  shows "schema_ok d1"
proof (cases res)
  case None
  with assms(2) have "d1 = d\<lparr>users_id_seq := users_id_seq d + 1\<rparr>"
    by (simp add: insert_user_None)
  with assms(1) show ?thesis
    by (auto simp: schema_ok_def elim: users_inv_mono)
next
  case (Some row)
  with assms(2) have s: "d1 = d\<lparr>users_id_seq := users_id_seq d + 1, users := users d @ [row]\<rparr>"
    "u_id row = users_id_seq d" "u_email row \<notin> set (map u_email (users d))"
    "u_role row = ''client'' \<or> u_role row = ''prestataire''"
    using insert_user_Some by blast+
  from assms(1) s(2-4) show ?thesis unfolding s(1) schema_ok_def
    by (auto intro: users_inv_snoc elim: profiles_inv_mono bookings_inv_mono messages_inv_mono)
qed

lemma insert_profile_None:
  "insert_profile d uid m = (None, d1) \<Longrightarrow>
   d1 = d\<lparr>prestataire_profiles_id_seq := prestataire_profiles_id_seq d + 1\<rparr>"
  by (auto simp: insert_profile_def Let_def split: if_splits)

lemma insert_profile_Some:
  "insert_profile d uid m = (Some row, d1) \<Longrightarrow>
   d1 = d\<lparr>prestataire_profiles_id_seq := prestataire_profiles_id_seq d + 1,
          prestataire_profiles := prestataire_profiles d @ [row]\<rparr>
   \<and> p_id row = prestataire_profiles_id_seq d \<and> p_user_id row = uid \<and> p_metier row = m
   \<and> uid \<notin> set (map p_user_id (prestataire_profiles d)) \<and> uid \<in> set (map u_id (users d))"
  by (auto simp: insert_profile_def Let_def split: if_splits)

lemma insert_profile_schema_ok:
  assumes "schema_ok d" "insert_profile d uid m = (res, d1)"
  shows "schema_ok d1"
proof (cases res)
  case None
  with assms(2) have "d1 = d\<lparr>prestataire_profiles_id_seq := prestataire_profiles_id_seq d + 1\<rparr>"
    by (simp add: insert_profile_None)
  with assms(1) show ?thesis
    by (auto simp: schema_ok_def elim: profiles_inv_mono)
next
  case (Some row)
  with assms(2) have s:
    "d1 = d\<lparr>prestataire_profiles_id_seq := prestataire_profiles_id_seq d + 1,
            prestataire_profiles := prestataire_profiles d @ [row]\<rparr>"
    "p_id row = prestataire_profiles_id_seq d"
    "p_user_id row \<notin> set (map p_user_id (prestataire_profiles d))"
    "p_user_id row \<in> set (map u_id (users d))"
    using insert_profile_Some by blast+
  from assms(1) s(2-4) show ?thesis unfolding s(1) schema_ok_def
    by (auto intro: profiles_inv_snoc elim: services_inv_mono bookings_inv_mono)
qed

lemma insert_service_None:
  "insert_service d now pid req = (None, d1) \<Longrightarrow>
   d1 = d\<lparr>services_id_seq := services_id_seq d + 1\<rparr>"
  by (auto simp: insert_service_def Let_def split: option.splits if_splits)

lemma insert_service_Some:
  "insert_service d now pid req = (Some row, d1) \<Longrightarrow>
   d1 = d\<lparr>services_id_seq := services_id_seq d + 1, services := services d @ [row]\<rparr>
   \<and> s_id row = services_id_seq d \<and> s_prestataire_id row = pid
   \<and> pid \<in> set (map p_id (prestataire_profiles d))"
  by (auto simp: insert_service_def Let_def split: option.splits if_splits)

lemma insert_service_schema_ok:
  assumes "schema_ok d" "insert_service d now pid req = (res, d1)"
  shows "schema_ok d1"
proof (cases res)
  case None
  with assms(2) have "d1 = d\<lparr>services_id_seq := services_id_seq d + 1\<rparr>"
    by (simp add: insert_service_None)
  with assms(1) show ?thesis
    by (auto simp: schema_ok_def elim: services_inv_mono)
next
  case (Some row)
  with assms(2) have s:
    "d1 = d\<lparr>services_id_seq := services_id_seq d + 1, services := services d @ [row]\<rparr>"
    "s_id row = services_id_seq d"
    "s_prestataire_id row \<in> set (map p_id (prestataire_profiles d))"
    using insert_service_Some by blast+
  from assms(1) s(2-3) show ?thesis unfolding s(1) schema_ok_def
    by (auto intro: services_inv_snoc elim: bookings_inv_mono)
qed

lemma insert_booking_None:
  "insert_booking d now c req = (None, d1) \<Longrightarrow>
   d1 = d\<lparr>bookings_id_seq := bookings_id_seq d + 1\<rparr>"
  by (auto simp: insert_booking_def Let_def split: option.splits if_splits)

lemma insert_booking_Some:
  "insert_booking d now c req = (Some row, d1) \<Longrightarrow>
   d1 = d\<lparr>bookings_id_seq := bookings_id_seq d + 1, bookings := bookings d @ [row]\<rparr>
   \<and> b_id row = bookings_id_seq d \<and> b_client_id row = c
   \<and> c \<in> set (map u_id (users d))
   \<and> b_prestataire_id row \<in> set (map p_id (prestataire_profiles d))
   \<and> b_service_id row \<in> set (map s_id (services d))
   \<and> b_statut row = Some ''en_attente''"
  by (auto simp: insert_booking_def Let_def split: option.splits if_splits)

lemma insert_booking_schema_ok:
  assumes "schema_ok d" "insert_booking d now c req = (res, d1)"
  shows "schema_ok d1"
proof (cases res)
  case None
  with assms(2) have "d1 = d\<lparr>bookings_id_seq := bookings_id_seq d + 1\<rparr>"
    by (simp add: insert_booking_None)
  with assms(1) show ?thesis
    by (auto simp: schema_ok_def elim: bookings_inv_mono)
next
  case (Some row)
  with assms(2) have s:
    "d1 = d\<lparr>bookings_id_seq := bookings_id_seq d + 1, bookings := bookings d @ [row]\<rparr>"
    "b_id row = bookings_id_seq d"
    "b_client_id row \<in> set (map u_id (users d))"
    "b_prestataire_id row \<in> set (map p_id (prestataire_profiles d))"
    "b_service_id row \<in> set (map s_id (services d))"
    "statut_check (b_statut row)"
    using insert_booking_Some by (blast, blast, blast, blast, blast, simp add: statut_check_def)
  from assms(1) s(2-6) show ?thesis unfolding s(1) schema_ok_def
    by (auto intro: bookings_inv_snoc elim: reviews_inv_mono messages_inv_mono)
qed

lemma insert_review_None:
  "insert_review d now bk n c = (None, d1) \<Longrightarrow>
   d1 = d\<lparr>reviews_id_seq := reviews_id_seq d + 1\<rparr>"
  by (auto simp: insert_review_def Let_def split: option.splits if_splits)

lemma insert_review_Some:
  "insert_review d now bk n c = (Some row, d1) \<Longrightarrow>
   d1 = d\<lparr>reviews_id_seq := reviews_id_seq d + 1, reviews := reviews d @ [row]\<rparr>
   \<and> r_id row = reviews_id_seq d \<and> bk = Some (r_booking_id row) \<and> r_note row = n
   \<and> r_booking_id row \<notin> set (map r_booking_id (reviews d))
   \<and> r_booking_id row \<in> set (map b_id (bookings d)) \<and> note_check n"
  by (auto simp: insert_review_def Let_def split: option.splits if_splits)

lemma insert_review_schema_ok:
  assumes "schema_ok d" "insert_review d now bk n c = (res, d1)"
  shows "schema_ok d1"
proof (cases res)
  case None
  with assms(2) have "d1 = d\<lparr>reviews_id_seq := reviews_id_seq d + 1\<rparr>"
    by (simp add: insert_review_None)
  with assms(1) show ?thesis
    by (auto simp: schema_ok_def elim: reviews_inv_mono)
next
  case (Some row)
  with assms(2) have s:
    "d1 = d\<lparr>reviews_id_seq := reviews_id_seq d + 1, reviews := reviews d @ [row]\<rparr>"
    "r_id row = reviews_id_seq d"
    "r_booking_id row \<notin> set (map r_booking_id (reviews d))"
    "r_booking_id row \<in> set (map b_id (bookings d))"
    "note_check (r_note row)"
    using insert_review_Some by blast+
  from assms(1) s(2-5) show ?thesis unfolding s(1) schema_ok_def
    by (auto intro: reviews_inv_snoc)
qed

lemma insert_message_None:
  "insert_message d now u req = (None, d1) \<Longrightarrow>
   d1 = d\<lparr>messages_id_seq := messages_id_seq d + 1\<rparr>"
  by (auto simp: insert_message_def Let_def split: option.splits if_splits)

lemma insert_message_Some:
  "insert_message d now u req = (Some row, d1) \<Longrightarrow>
   d1 = d\<lparr>messages_id_seq := messages_id_seq d + 1, messages := messages d @ [row]\<rparr>
   \<and> m_id row = messages_id_seq d
   \<and> m_booking_id row \<in> set (map b_id (bookings d))
   \<and> m_expediteur_id row \<in> set (map u_id (users d))"
  by (auto simp: insert_message_def Let_def split: option.splits if_splits)

lemma insert_message_schema_ok:
  assumes "schema_ok d" "insert_message d now u req = (res, d1)"
  shows "schema_ok d1"
proof (cases res)
  case None
  with assms(2) have "d1 = d\<lparr>messages_id_seq := messages_id_seq d + 1\<rparr>"
    by (simp add: insert_message_None)
  with assms(1) show ?thesis
    by (auto simp: schema_ok_def elim: messages_inv_mono)
next
  case (Some row)
  with assms(2) have s:
    "d1 = d\<lparr>messages_id_seq := messages_id_seq d + 1, messages := messages d @ [row]\<rparr>"
    "m_id row = messages_id_seq d"
    "m_booking_id row \<in> set (map b_id (bookings d))"
    "m_expediteur_id row \<in> set (map u_id (users d))"
    using insert_message_Some by blast+
  from assms(1) s(2-4) show ?thesis unfolding s(1) schema_ok_def
    by (auto intro: messages_inv_snoc)
qed

lemma profiles_inv_map_if:
  assumes "profiles_inv ps sq U" "\<And>p. p_id (f p) = p_id p" "\<And>p. p_user_id (f p) = p_user_id p"
  shows "profiles_inv (map (\<lambda>p. if c p then f p else p) ps) sq U"
  by (rule profiles_inv_map[OF assms(1)]) (simp_all add: assms(2,3))

lemma key_image_map:
  assumes "\<And>x. k (g x) = k x"
  shows "k ` set (map g xs) = k ` set xs"
  using assms by (induction xs) simp_all

lemma p_id_map_if:
  assumes "\<And>p. p_id (f p) = p_id p"
  shows "p_id ` set (map (\<lambda>p. if c p then f p else p) ps) = p_id ` set ps"
  by (rule key_image_map) (simp add: assms)

lemma bookings_inv_map:
  assumes "bookings_inv bs sq U P S" "\<And>b. b_id (g b) = b_id b"
    "\<And>b. b_client_id (g b) = b_client_id b" "\<And>b. b_prestataire_id (g b) = b_prestataire_id b"
    "\<And>b. b_service_id (g b) = b_service_id b"
    "\<And>b. statut_check (b_statut b) \<Longrightarrow> statut_check (b_statut (g b))"
  shows "bookings_inv (map g bs) sq U P S"
  using assms unfolding bookings_inv_def by (simp add: comp_def)

lemma bookings_inv_map_if:
  assumes "bookings_inv bs sq U P S" "\<And>b. b_id (f b) = b_id b"
    "\<And>b. b_client_id (f b) = b_client_id b" "\<And>b. b_prestataire_id (f b) = b_prestataire_id b"
    "\<And>b. b_service_id (f b) = b_service_id b" "\<And>b. statut_check (b_statut (f b))"
  shows "bookings_inv (map (\<lambda>b. if c b then f b else b) bs) sq U P S"
  by (rule bookings_inv_map[OF assms(1)]) (simp_all add: assms(2-6))

lemma b_id_map_if:
  assumes "\<And>b. b_id (f b) = b_id b"
  shows "b_id ` set (map (\<lambda>b. if c b then f b else b) bs) = b_id ` set bs"
  by (rule key_image_map) (simp add: assms)

lemma update_note_moyenne_schema_ok:
  assumes "schema_ok d" "update_note_moyenne d pid = Some d2"
  shows "schema_ok d2"
proof -
  let ?f = "\<lambda>p. p\<lparr>p_note_moyenne := (case avg_note d (p_id p) of None \<Rightarrow> None | Some a \<Rightarrow> a),
                  p_nombre_avis := Some (count_avis d (p_id p))\<rparr>"
  from assms(2) have d2: "d2 = d\<lparr>prestataire_profiles :=
      map (\<lambda>p. if p_id p = pid then ?f p else p) (prestataire_profiles d)\<rparr>"
    by (simp add: update_note_moyenne_def split: if_splits)
  have ids: "p_id ` set (map (\<lambda>p. if p_id p = pid then ?f p else p) (prestataire_profiles d))
             = p_id ` set (prestataire_profiles d)"
    by (rule p_id_map_if) simp
  have inv: "profiles_inv (map (\<lambda>p. if p_id p = pid then ?f p else p) (prestataire_profiles d))
               (prestataire_profiles_id_seq d) (u_id ` set (users d))"
    using assms(1) by (intro profiles_inv_map_if) (simp_all add: schema_ok_def)
  from assms(1) show ?thesis
    unfolding d2 schema_ok_def by (simp add: ids inv del: set_map)
qed

lemma post_auth_register_schema_ok:
  "schema_ok d \<Longrightarrow> schema_ok (snd (post_auth_register ev now salt req d))"
  unfolding post_auth_register_def
  by (auto split: option.splits prod.splits dest: insert_user_schema_ok insert_profile_schema_ok)

lemma post_auth_login_unchanged: "snd (post_auth_login ev now req d) = d"
  by (simp add: post_auth_login_def split: list.splits option.splits)

lemma get_prestataires_unchanged: "snd (get_prestataires q d) = d"
  by (simp add: get_prestataires_def Let_def)

lemma get_prestataire_unchanged: "snd (get_prestataire i d) = d"
  by (simp add: get_prestataire_def split: list.splits)

lemma put_prestataires_profile_schema_ok:
  assumes "schema_ok d"
  shows "schema_ok (snd (put_prestataires_profile req user d))"
proof (cases "[p \<leftarrow> prestataire_profiles d. p_user_id p = userId user]")
  case Nil
  with assms show ?thesis by (simp add: put_prestataires_profile_def)
next
  case (Cons p0 rest)
  show ?thesis
  proof (cases "fq_metier req")
    case None
    with Cons assms show ?thesis by (simp add: put_prestataires_profile_def)
  next
    case (Some metier)
    let ?f = "\<lambda>p. p\<lparr>p_metier := metier, p_description := fq_description req,
                    p_annees_experience := fq_annees_experience req,
                    p_tarif_horaire := fq_tarif_horaire req,
                    p_zone_intervention := fq_zone_intervention req,
                    p_adresse := fq_adresse req, p_portfolio := fq_portfolio req,
                    p_disponibilites := fq_disponibilites req\<rparr>"
    let ?ps = "map (\<lambda>p. if p_user_id p = userId user then ?f p else p) (prestataire_profiles d)"
    have d2: "snd (put_prestataires_profile req user d) = d\<lparr>prestataire_profiles := ?ps\<rparr>"
      using Cons Some by (simp add: put_prestataires_profile_def Let_def)
    have ids: "p_id ` set ?ps = p_id ` set (prestataire_profiles d)"
      by (rule p_id_map_if) simp
    have inv: "profiles_inv ?ps (prestataire_profiles_id_seq d) (u_id ` set (users d))"
      using assms by (intro profiles_inv_map_if) (simp_all add: schema_ok_def)
    from assms show ?thesis
      unfolding d2 schema_ok_def by (simp add: ids inv del: set_map)
  qed
qed

lemma post_services_schema_ok:
  "schema_ok d \<Longrightarrow> schema_ok (snd (post_services now req user d))"
  unfolding post_services_def
  by (auto split: list.splits option.splits prod.splits dest: insert_service_schema_ok)

lemma post_bookings_schema_ok:
  "schema_ok d \<Longrightarrow> schema_ok (snd (post_bookings now req user d))"
  unfolding post_bookings_def
  by (auto split: option.splits prod.splits dest: insert_booking_schema_ok)

lemma put_bookings_status_schema_ok:
  assumes "schema_ok d"
  shows "schema_ok (snd (put_bookings_status now i st user d))"
proof (cases "[b \<leftarrow> bookings d. b_id b = i] = [] \<or> \<not> statut_check st")
  case True
  with assms show ?thesis by (auto simp: put_bookings_status_def split: list.splits)
next
  case False
  let ?f = "\<lambda>b. b\<lparr>b_statut := st, b_updated_at := now\<rparr>"
  let ?bs = "map (\<lambda>b. if b_id b = i then ?f b else b) (bookings d)"
  have d2: "snd (put_bookings_status now i st user d) = d\<lparr>bookings := ?bs\<rparr>"
    using False by (auto simp: put_bookings_status_def Let_def split: list.splits)
  have ids: "b_id ` set ?bs = b_id ` set (bookings d)"
    by (rule b_id_map_if) simp
  have inv: "bookings_inv ?bs (bookings_id_seq d) (u_id ` set (users d))
               (p_id ` set (prestataire_profiles d)) (s_id ` set (services d))"
    using assms False by (intro bookings_inv_map_if) (simp_all add: schema_ok_def)
  from assms show ?thesis
    unfolding d2 schema_ok_def by (simp add: ids inv del: set_map)
qed

lemma post_reviews_schema_ok:
  "schema_ok d \<Longrightarrow> schema_ok (snd (post_reviews now req user d))"
  unfolding post_reviews_def
  by (auto split: list.splits option.splits prod.splits
      dest: insert_review_schema_ok update_note_moyenne_schema_ok)

lemma post_messages_schema_ok:
  "schema_ok d \<Longrightarrow> schema_ok (snd (post_messages now req user d))"
  unfolding post_messages_def
  by (auto split: option.splits prod.splits dest: insert_message_schema_ok)

lemma authenticated_schema_ok:
  assumes "schema_ok d" "\<And>user. schema_ok (snd (handler user d))"
  shows "schema_ok (snd (authenticated ev now h handler d))"
  using assms by (simp add: authenticated_def split: sum.splits)

lemma app_schema_ok: "schema_ok d \<Longrightarrow> schema_ok (snd (app ev rq d))"
  by (cases rq)
    (simp_all add: post_auth_register_schema_ok post_auth_login_unchanged
      get_prestataires_unchanged get_prestataire_unchanged authenticated_schema_ok
      put_prestataires_profile_schema_ok post_services_schema_ok post_bookings_schema_ok
      put_bookings_status_schema_ok post_reviews_schema_ok post_messages_schema_ok)

lemma serve_schema_ok: "schema_ok d \<Longrightarrow> schema_ok (serve ev rqs d)"
  by (induction rqs arbitrary: d) (simp_all add: app_schema_ok)

section \<open>The recomputed average stays within numeric(3,2)\<close>


lemma non_null_set: "set [v. Some v \<leftarrow> xs] = {v. Some v \<in> set xs}"
  by (induction xs) (auto split: option.splits)

lemma sum_list_between:
  fixes vs :: "int list"
  assumes "\<forall>v \<in> set vs. 1 \<le> v \<and> v \<le> 5"
  shows "int (length vs) \<le> sum_list vs \<and> sum_list vs \<le> 5 * int (length vs)"
  using assms by (induction vs) auto

lemma sql_avg_between:
  assumes "\<forall>n \<in> set xs. note_check n" "sql_avg xs = Some x"
  shows "1 \<le> x \<and> x \<le> 5"
proof -
  let ?vs = "[v. Some v \<leftarrow> xs]"
  from assms(2) have ne: "?vs \<noteq> []" and x: "x = of_int (sum_list ?vs) / of_int (int (length ?vs))"
    by (auto simp: sql_avg_def Let_def split: if_splits)
  have "\<forall>v \<in> set ?vs. 1 \<le> v \<and> v \<le> 5"
    using assms(1) by (auto simp: non_null_set note_check_def split: option.splits)
  then have b: "int (length ?vs) \<le> sum_list ?vs" "sum_list ?vs \<le> 5 * int (length ?vs)"
    using sum_list_between by blast+
  from ne have pos: "(0::rat) < of_int (int (length ?vs))" by simp
  have "(of_int (int (length ?vs)) :: rat) \<le> of_int (sum_list ?vs)"
    using b(1) by (simp only: of_int_le_iff)
  moreover have "(of_int (sum_list ?vs) :: rat) \<le> 5 * of_int (int (length ?vs))"
    using b(2) by (metis of_int_le_iff of_int_mult of_int_numeral)
  ultimately show ?thesis
    unfolding x using pos by (simp add: pos_le_divide_eq pos_divide_le_eq)
qed

lemma numeric_3_2_between:
  assumes "1 \<le> x" "x \<le> 5"
  shows "\<exists>h. numeric_3_2 x = Some h \<and> 100 \<le> h \<and> h \<le> 500"
proof -
  let ?h = "\<lfloor>x * 100 + 1 / 2\<rfloor>"
  have "(of_int 100 :: rat) \<le> x * 100 + 1 / 2" using assms(1) by simp
  then have lo: "100 \<le> ?h" by (simp only: le_floor_iff)
  have "x * 100 + 1 / 2 < (of_int 501 :: rat)" using assms(2) by simp
  then have "?h < 501" by (simp only: floor_less_iff)
  then have hi: "?h \<le> 500" by simp
  from assms(1) have "0 \<le> x" by simp
  with lo hi show ?thesis by (simp add: numeric_3_2_def Let_def)
qed

lemma avg_note_checked:
  assumes "\<forall>r \<in> set (reviews d). note_check (r_note r)"
  shows "\<exists>a. avg_note d pid = Some a"
proof (cases "sql_avg (map (\<lambda>rb. r_note (fst rb)) (reviews_join_bookings d pid))")
  case None
  then show ?thesis by (simp add: avg_note_def)
next
  case (Some x)
  have "\<forall>n \<in> set (map (\<lambda>rb. r_note (fst rb)) (reviews_join_bookings d pid)). note_check n"
    using assms by (auto simp: reviews_join_bookings_def)
  from sql_avg_between[OF this Some] numeric_3_2_between
  obtain h where "numeric_3_2 x = Some h" by blast
  with Some show ?thesis by (simp add: avg_note_def)
qed

lemma update_note_moyenne_checked:
  assumes "\<forall>r \<in> set (reviews d). note_check (r_note r)"
  shows "\<exists>d2. update_note_moyenne d pid = Some d2"
  using avg_note_checked[OF assms, of pid] by (auto simp: update_note_moyenne_def)

section \<open>Creating a review\<close>


lemma scenario_example_db: "serve example_env scenario initDatabase = example_db"
  by (simp add: scenario_def example_db_def initDatabase_def example_env_def bearer_def
      register_a_def register_b_def example_users_def example_profile_def example_booking_def
      post_auth_register_def insert_user_def insert_profile_def register_created_def
      authenticated_def authenticateToken_def jwt_sign_def post_services_def insert_service_def
      post_bookings_def insert_booking_def put_bookings_status_def statut_check_def Let_def)

lemma schema_ok_example: "schema_ok example_db"
  using serve_schema_ok[OF schema_ok_init, of example_env scenario]
  by (simp add: scenario_example_db)

lemma authenticateToken_b: "authenticateToken example_env 5 (bearer 2 ''b@x.bf'' ''client'') = Inr user_b"
  by (simp add: authenticateToken_def bearer_def jwt_sign_def example_env_def user_b_def)


lemma authenticated_Inr:
  "authenticateToken ev now h = Inr user \<Longrightarrow> authenticated ev now h handler d = handler user d"
  by (simp add: authenticated_def)

lemma authenticated_Inl:
  "authenticateToken ev now h = Inl r \<Longrightarrow> authenticated ev now h handler d = (r, d)"
  by (simp add: authenticated_def)


lemma insert_review_fails:
  "\<not> note_check n \<Longrightarrow> fst (insert_review d now bk n c) = None"
  by (simp add: insert_review_def Let_def split: option.splits)

lemma bookingResult_Cons:
  "bookingResult req user d = b # bs \<Longrightarrow>
   b \<in> set (bookings d) \<and> Some (b_id b) = vq_booking_id req \<and> b_client_id b = userId user
   \<and> b_statut b = Some ''termine''"
proof -
  assume "bookingResult req user d = b # bs"
  then have "b \<in> set (bookingResult req user d)" by simp
  then show ?thesis by (simp add: bookingResult_def)
qed



lemma bookingResult_example:
  "bookingResult (review_of n) user_b example_db = [example_booking]"
  by (simp add: bookingResult_def review_of_def user_b_def example_db_def example_booking_def)

lemma existingReview_example: "existingReview (review_of n) example_db = []"
  by (simp add: existingReview_def example_db_def)



lemma post_reviews_profiles_unchanged:
  "status (fst (post_reviews now req user d)) \<noteq> 201 \<Longrightarrow>
   prestataire_profiles (snd (post_reviews now req user d)) = prestataire_profiles d"
  by (auto simp: post_reviews_def erreur_serveur_def split: list.splits option.splits prod.splits
      dest!: insert_review_None insert_review_Some)

text \<open>
  Claim C10. When the booking qualifies, no review of it exists and the INSERT into
  \<open>reviews\<close> fails (a rating outside 1..5, for one), POST /api/reviews answers 500; and
  whenever the answer is not 201 (this failure, 400, 403, or a rejected token) the table
  of provider profiles, hence every \<open>note_moyenne\<close> and \<open>nombre_avis\<close>, is what it was.
\<close>

theorem post_reviews_error_keeps_aggregate:
  "(authenticateToken ev now h = Inr user \<and> bookingResult req user d \<noteq> []
      \<and> existingReview req d = []
      \<and> fst (insert_review d now (vq_booking_id req) (vq_note req) (vq_commentaire req)) = None
    \<longrightarrow> fst (app ev (PostReviews now h req) d) = erreur_serveur)
   \<and> (status (fst (app ev (PostReviews now h req) d)) \<noteq> 201
      \<longrightarrow> prestataire_profiles (snd (app ev (PostReviews now h req) d)) = prestataire_profiles d)"
proof (intro conjI impI)
  assume a: "authenticateToken ev now h = Inr user \<and> bookingResult req user d \<noteq> []
      \<and> existingReview req d = []
      \<and> fst (insert_review d now (vq_booking_id req) (vq_note req) (vq_commentaire req)) = None"
  then show "fst (app ev (PostReviews now h req) d) = erreur_serveur"
    by (auto simp: authenticated_Inr post_reviews_def split: list.splits prod.splits)
next
  assume s: "status (fst (app ev (PostReviews now h req) d)) \<noteq> 201"
  show "prestataire_profiles (snd (app ev (PostReviews now h req) d)) = prestataire_profiles d"
  proof (cases "authenticateToken ev now h")
    case (Inl r)
    then show ?thesis by (simp add: authenticated_Inl)
  next
    case (Inr user')
    with s show ?thesis
      using post_reviews_profiles_unchanged[of now req user' d] by (simp add: authenticated_Inr)
  qed
qed

theorem post_reviews_error_keeps_aggregate_witness:
  "authenticateToken example_env 5 (bearer 2 ''b@x.bf'' ''client'') = Inr user_b
   \<and> bookingResult (review_of (Some 6)) user_b example_db \<noteq> []
   \<and> existingReview (review_of (Some 6)) example_db = []
   \<and> fst (insert_review example_db 5 (vq_booking_id (review_of (Some 6)))
            (vq_note (review_of (Some 6))) (vq_commentaire (review_of (Some 6)))) = None
   \<and> fst (app example_env (PostReviews 5 (bearer 2 ''b@x.bf'' ''client'') (review_of (Some 6)))
            example_db) = erreur_serveur
   \<and> prestataire_profiles
        (snd (app example_env (PostReviews 5 (bearer 2 ''b@x.bf'' ''client'')
                (review_of (Some 6))) example_db)) = [example_profile]"
proof -
  have ins: "fst (insert_review example_db 5 (vq_booking_id (review_of (Some 6)))
            (vq_note (review_of (Some 6))) (vq_commentaire (review_of (Some 6)))) = None"
    by (rule insert_review_fails) (simp add: review_of_def note_check_def)
  have pre: "authenticateToken example_env 5 (bearer 2 ''b@x.bf'' ''client'') = Inr user_b
     \<and> bookingResult (review_of (Some 6)) user_b example_db \<noteq> []
     \<and> existingReview (review_of (Some 6)) example_db = []
     \<and> fst (insert_review example_db 5 (vq_booking_id (review_of (Some 6)))
            (vq_note (review_of (Some 6))) (vq_commentaire (review_of (Some 6)))) = None"
    using ins by (simp add: authenticateToken_b bookingResult_example existingReview_example)
  note inst = post_reviews_error_keeps_aggregate[of example_env 5 "bearer 2 ''b@x.bf'' ''client''"
      user_b "review_of (Some 6)" example_db]
  from inst pre have r: "fst (app example_env (PostReviews 5 (bearer 2 ''b@x.bf'' ''client'')
      (review_of (Some 6))) example_db) = erreur_serveur" by blast
  then have "status (fst (app example_env (PostReviews 5 (bearer 2 ''b@x.bf'' ''client'')
      (review_of (Some 6))) example_db)) \<noteq> 201" by (simp add: erreur_serveur_def)
  with inst have "prestataire_profiles (snd (app example_env (PostReviews 5
      (bearer 2 ''b@x.bf'' ''client'') (review_of (Some 6))) example_db))
      = prestataire_profiles example_db" by blast
  with pre r show ?thesis by (simp add: example_db_def)
qed

section \<open>The aggregate after a review\<close>


lemma reviews_join_bookings_frame:
  assumes "reviews d' = reviews d" "bookings d' = bookings d"
  shows "reviews_join_bookings d' pid = reviews_join_bookings d pid"
  unfolding reviews_join_bookings_def assms ..

lemma ratings_frame:
  assumes "reviews d' = reviews d" "bookings d' = bookings d"
  shows "ratings d' pid = ratings d pid"
  unfolding ratings_def reviews_join_bookings_frame[OF assms] ..

lemma filter_unique_key:
  "distinct (map k xs) \<Longrightarrow> y \<in> set xs \<Longrightarrow> [x \<leftarrow> xs. k x = k y] = [y]"
proof (induction xs)
  case Nil
  then show ?case by simp
next
  case (Cons a xs)
  from Cons.prems(1) have na: "k a \<notin> k ` set xs" and dx: "distinct (map k xs)" by simp_all
  show ?case
  proof (cases "a = y")
    case True
    have "\<forall>x\<in>set xs. k x \<noteq> k y"
    proof
      fix x assume "x \<in> set xs"
      then have "k x \<in> k ` set xs" by (rule imageI)
      with na True show "k x \<noteq> k y" by auto
    qed
    then have "[x \<leftarrow> xs. k x = k y] = []"
      by (simp add: filter_empty_conv)
    with True show ?thesis by simp
  next
    case False
    with Cons.prems(2) have y: "y \<in> set xs" by simp
    then have "k y \<in> k ` set xs" by (rule imageI)
    with na have "k a \<noteq> k y" by auto
    moreover have "[x \<leftarrow> xs. k x = k y] = [y]" using Cons.IH[OF dx y] .
    ultimately show ?thesis by simp
  qed
qed

lemma join_one_review:
  "[(row, x). x \<leftarrow> bs, bid = b_id x, b_prestataire_id x = pid]
   = map (Pair row) [x \<leftarrow> [x \<leftarrow> bs. b_id x = bid]. b_prestataire_id x = pid]"
  by (induction bs) simp_all

lemma reviews_join_bookings_snoc:
  assumes "reviews d1 = reviews d @ [row]" "bookings d1 = bookings d"
    "distinct (map b_id (bookings d))" "b \<in> set (bookings d)" "r_booking_id row = b_id b"
  shows "reviews_join_bookings d1 (b_prestataire_id b) =
         reviews_join_bookings d (b_prestataire_id b) @ [(row, b)]"
proof -
  have "[(row, x). x \<leftarrow> bookings d, r_booking_id row = b_id x,
                   b_prestataire_id x = b_prestataire_id b] = [(row, b)]"
    unfolding join_one_review assms(5) filter_unique_key[OF assms(3,4)] by simp
  then show ?thesis
    unfolding reviews_join_bookings_def assms(1,2) by simp
qed

lemma numeric_3_2_round:
  assumes "1 \<le> x" "x \<le> 5"
  shows "numeric_3_2 x = Some (round (x * 100))"
proof -
  from numeric_3_2_between[OF assms] obtain h where h: "numeric_3_2 x = Some h" by blast
  from assms(1) have "0 \<le> x" by simp
  with h show ?thesis
    by (auto simp: numeric_3_2_def Let_def round_def split: if_splits)
qed

lemma avg_note_mean:
  assumes "\<forall>r \<in> set (reviews d). note_check (r_note r)"
  shows "avg_note d pid =
         Some (if ratings d pid = [] then None else Some (mean_2dp (ratings d pid)))"
proof (cases "ratings d pid = []")
  case True
  then show ?thesis by (simp add: avg_note_def sql_avg_def ratings_def)
next
  case False
  let ?xs = "map (\<lambda>rb. r_note (fst rb)) (reviews_join_bookings d pid)"
  let ?x = "of_int (sum_list (ratings d pid)) / of_int (int (length (ratings d pid))) :: rat"
  from False have avg: "sql_avg ?xs = Some ?x"
    by (simp add: sql_avg_def ratings_def Let_def)
  have "\<forall>n \<in> set ?xs. note_check n"
    using assms by (auto simp: reviews_join_bookings_def)
  from numeric_3_2_round sql_avg_between[OF this avg]
  have "numeric_3_2 ?x = Some (round (?x * 100))" by blast
  with avg show ?thesis
    using False by (simp add: avg_note_def mean_2dp_def)
qed

lemma map_preserves_prop:
  assumes "\<And>q. P (g q) \<Longrightarrow> Q (g q)"
  shows "\<forall>p \<in> set (map g ps). P p \<longrightarrow> Q p"
  using assms by simp

lemma update_note_moyenne_profiles:
  assumes "update_note_moyenne d1 pid = Some d2" "avg_note d1 pid = Some a"
  shows "reviews d2 = reviews d1 \<and> bookings d2 = bookings d1
         \<and> p_id ` set (prestataire_profiles d2) = p_id ` set (prestataire_profiles d1)
         \<and> (\<forall>p \<in> set (prestataire_profiles d2). p_id p = pid \<longrightarrow>
               p_nombre_avis p = Some (count_avis d1 pid) \<and> p_note_moyenne p = a)"
proof -
  let ?f = "\<lambda>p. p\<lparr>p_note_moyenne := (case avg_note d1 (p_id p) of None \<Rightarrow> None | Some a \<Rightarrow> a),
                  p_nombre_avis := Some (count_avis d1 (p_id p))\<rparr>"
  let ?g = "\<lambda>p. if p_id p = pid then ?f p else p"
  from assms(1) have d2: "d2 = d1\<lparr>prestataire_profiles := map ?g (prestataire_profiles d1)\<rparr>"
    by (simp add: update_note_moyenne_def split: if_splits)
  have ids: "p_id ` set (map ?g (prestataire_profiles d1)) = p_id ` set (prestataire_profiles d1)"
    by (rule p_id_map_if) simp
  have "\<forall>p \<in> set (map ?g (prestataire_profiles d1)).
          p_id p = pid \<longrightarrow> p_nombre_avis p = Some (count_avis d1 pid) \<and> p_note_moyenne p = a"
    by (rule map_preserves_prop) (simp add: assms(2) split: if_splits)
  with ids show ?thesis unfolding d2 by (simp del: set_map)
qed

text \<open>
  One review creation. After a successful review creation the review joins the provider's
  reviews (one more than before), and in the same operation the provider's
  \<open>nombre_avis\<close> is set to the number of reviews joined through the provider's bookings
  and \<open>note_moyenne\<close> to the arithmetic mean, rounded to two decimals, of the ratings of
  those reviews that carry one; it is NULL when none does.
\<close>

theorem post_reviews_recomputes_aggregate:
  assumes "schema_ok d" "post_reviews now req user d = (resp, d')" "status resp = 201"
  shows "\<exists>booking review.
           booking \<in> set (bookings d) \<and> Some (b_id booking) = vq_booking_id req
           \<and> resp = \<lparr>status = 201, body = ReviewBody msg_avis_ajoute review\<rparr>
           \<and> r_note review = vq_note req
           \<and> reviews_join_bookings d' (b_prestataire_id booking)
               = reviews_join_bookings d (b_prestataire_id booking) @ [(review, booking)]
           \<and> (\<exists>p \<in> set (prestataire_profiles d'). p_id p = b_prestataire_id booking)
           \<and> (\<forall>p \<in> set (prestataire_profiles d'). p_id p = b_prestataire_id booking \<longrightarrow>
                 p_nombre_avis p = Some (int (length (reviews_join_bookings d' (p_id p))))
                 \<and> p_note_moyenne p = (if ratings d' (p_id p) = [] then None
                                        else Some (mean_2dp (ratings d' (p_id p)))))"
proof -
  from assms(2,3) obtain booking rest where br: "bookingResult req user d = booking # rest"
    by (cases "bookingResult req user d") (auto simp: post_reviews_def)
  note bk = bookingResult_Cons[OF br]
  let ?pid = "b_prestataire_id booking"
  have noex: "existingReview req d = []"
  proof (rule ccontr)
    assume "existingReview req d \<noteq> []"
    with assms(2) br have "resp = \<lparr>status = 400, body = ErrorBody msg_avis_existe\<rparr>"
      by (simp add: post_reviews_def)
    with assms(3) show False by simp
  qed
  obtain res d1 where ins0:
    "insert_review d now (vq_booking_id req) (vq_note req) (vq_commentaire req) = (res, d1)"
    by (cases "insert_review d now (vq_booking_id req) (vq_note req) (vq_commentaire req)")
  have "res \<noteq> None"
  proof
    assume "res = None"
    with assms(2) br noex ins0 have "resp = erreur_serveur" by (simp add: post_reviews_def)
    with assms(3) show False by (simp add: erreur_serveur_def)
  qed
  then obtain review where res: "res = Some review" by auto
  have ins: "insert_review d now (vq_booking_id req) (vq_note req) (vq_commentaire req)
            = (Some review, d1)" using ins0 res by simp
  have step: "(resp, d') = (case update_note_moyenne d1 ?pid of
                 None \<Rightarrow> (erreur_serveur, d1)
               | Some d2 \<Rightarrow> (\<lparr>status = 201, body = ReviewBody msg_avis_ajoute review\<rparr>, d2))"
    using assms(2) br noex ins by (simp add: post_reviews_def)
  have "update_note_moyenne d1 ?pid \<noteq> None"
  proof
    assume "update_note_moyenne d1 ?pid = None"
    with step have "resp = erreur_serveur" by simp
    with assms(3) show False by (simp add: erreur_serveur_def)
  qed
  then obtain d2 where u2: "update_note_moyenne d1 ?pid = Some d2" by auto
  with step have upd: "update_note_moyenne d1 ?pid = Some d'"
    and resp: "resp = \<lparr>status = 201, body = ReviewBody msg_avis_ajoute review\<rparr>"
    by simp_all
  note shape = insert_review_Some[OF ins]
  have ok1: "schema_ok d1" using insert_review_schema_ok[OF assms(1) ins] .
  then have checked: "\<forall>r \<in> set (reviews d1). note_check (r_note r)"
    by (simp add: schema_ok_def reviews_inv_def)
  have dist: "distinct (map b_id (bookings d))"
    using assms(1) by (simp add: schema_ok_def bookings_inv_def)
  have rb: "r_booking_id review = b_id booking" using shape bk by auto
  have r1: "reviews d1 = reviews d @ [review]" and b1: "bookings d1 = bookings d"
    using shape by simp_all
  note agg = update_note_moyenne_profiles[OF upd avg_note_mean[OF checked]]
  have join1: "reviews_join_bookings d1 ?pid = reviews_join_bookings d ?pid @ [(review, booking)]"
    using reviews_join_bookings_snoc[OF r1 b1 dist _ rb] bk by simp
  from agg have fr: "reviews d' = reviews d1" "bookings d' = bookings d1" by blast+
  have join': "reviews_join_bookings d' ?pid = reviews_join_bookings d1 ?pid"
    by (rule reviews_join_bookings_frame[OF fr])
  have rat': "ratings d' ?pid = ratings d1 ?pid"
    by (rule ratings_frame[OF fr])
  have "?pid \<in> p_id ` set (prestataire_profiles d)"
    using assms(1) bk by (simp add: schema_ok_def bookings_inv_def)
  moreover have "prestataire_profiles d1 = prestataire_profiles d" using shape by simp
  moreover from agg
  have "p_id ` set (prestataire_profiles d') = p_id ` set (prestataire_profiles d1)" by blast
  ultimately have "?pid \<in> p_id ` set (prestataire_profiles d')"
    by (simp only:)
  then have ex: "\<exists>p \<in> set (prestataire_profiles d'). p_id p = ?pid"
    by (auto simp: image_iff)
  have all: "\<forall>p \<in> set (prestataire_profiles d'). p_id p = ?pid \<longrightarrow>
      p_nombre_avis p = Some (int (length (reviews_join_bookings d' (p_id p))))
      \<and> p_note_moyenne p = (if ratings d' (p_id p) = [] then None
                             else Some (mean_2dp (ratings d' (p_id p))))"
  proof (intro ballI impI)
    fix p assume p: "p \<in> set (prestataire_profiles d')" "p_id p = ?pid"
    from agg p have "p_nombre_avis p = Some (count_avis d1 ?pid)"
      and "p_note_moyenne p = (if ratings d1 ?pid = [] then None
                               else Some (mean_2dp (ratings d1 ?pid)))" by blast+
    then show "p_nombre_avis p = Some (int (length (reviews_join_bookings d' (p_id p))))
      \<and> p_note_moyenne p = (if ratings d' (p_id p) = [] then None
                             else Some (mean_2dp (ratings d' (p_id p))))"
      unfolding p(2) join' rat' count_avis_def by simp
  qed
  have a1: "booking \<in> set (bookings d)" and a2: "Some (b_id booking) = vq_booking_id req"
    using bk by simp_all
  have a3: "r_note review = vq_note req" using shape by simp
  have a4: "reviews_join_bookings d' ?pid = reviews_join_bookings d ?pid @ [(review, booking)]"
    unfolding join' join1 ..
  show ?thesis
    by (intro exI[of _ booking] exI[of _ review] conjI) (fact a1 a2 resp a3 a4 ex all)+
qed


lemma avg_note_example:
  "avg_note (example_db\<lparr>reviews_id_seq := 2, reviews := [\<lparr>r_id = 1, r_booking_id = 1, r_note = n,
      r_commentaire = None, r_photos_review = None, r_created_at = 5\<rparr>]\<rparr>) 1
   = (case n of None \<Rightarrow> Some None | Some v \<Rightarrow> (case numeric_3_2 (of_int v) of None \<Rightarrow> None | Some h \<Rightarrow> Some (Some h)))"
  by (simp add: avg_note_def sql_avg_def reviews_join_bookings_def example_db_def
      example_booking_def split: option.splits)

lemma numeric_3_2_5: "numeric_3_2 5 = Some 500"
  using numeric_3_2_round[of 5] by simp

lemma mean_2dp_5: "mean_2dp [5] = 500"
  by (simp add: mean_2dp_def)

lemma post_reviews_example:
  "note_check n \<Longrightarrow> avg_note (example_db\<lparr>reviews_id_seq := 2, reviews := [\<lparr>r_id = 1, r_booking_id = 1, r_note = n,
      r_commentaire = None, r_photos_review = None, r_created_at = 5\<rparr>]\<rparr>) 1 = Some a \<Longrightarrow>
   post_reviews 5 (review_of n) user_b example_db =
     (\<lparr>status = 201, body = ReviewBody msg_avis_ajoute \<lparr>r_id = 1, r_booking_id = 1, r_note = n,
        r_commentaire = None, r_photos_review = None, r_created_at = 5\<rparr>\<rparr>,
      example_db\<lparr>reviews_id_seq := 2,
        reviews := [\<lparr>r_id = 1, r_booking_id = 1, r_note = n,
          r_commentaire = None, r_photos_review = None, r_created_at = 5\<rparr>],
        prestataire_profiles := [example_profile\<lparr>p_note_moyenne := a, p_nombre_avis := Some 1\<rparr>]\<rparr>)"
  apply (simp add: post_reviews_def bookingResult_example existingReview_example)
  apply (simp add: review_of_def insert_review_def Let_def)
  apply (simp add: example_db_def example_booking_def update_note_moyenne_def count_avis_def reviews_join_bookings_def example_profile_def)
  done

text \<open>
  The claim as first stated equates \<open>note_moyenne\<close> with the mean of the ratings of all N
  reviews. Client B reviews the finished booking of the scenario without a rating: the
  review is stored (201), \<open>nombre_avis\<close> becomes 1 and \<open>note_moyenne\<close> becomes NULL.
\<close>

theorem post_reviews_no_rating_counterexample:
  "status (fst (app example_env (PostReviews 5 (bearer 2 ''b@x.bf'' ''client'') (review_of None))
                  example_db)) = 201
   \<and> map r_note (reviews (snd (app example_env
         (PostReviews 5 (bearer 2 ''b@x.bf'' ''client'') (review_of None)) example_db))) = [None]
   \<and> map p_nombre_avis (prestataire_profiles (snd (app example_env
         (PostReviews 5 (bearer 2 ''b@x.bf'' ''client'') (review_of None)) example_db)))
       = [Some 1]
   \<and> map p_note_moyenne (prestataire_profiles (snd (app example_env
         (PostReviews 5 (bearer 2 ''b@x.bf'' ''client'') (review_of None)) example_db)))
       = [None]"
proof -
  have "note_check None" by (simp add: note_check_def)
  from post_reviews_example[OF this] avg_note_example[of None]
  show ?thesis by (simp add: authenticated_Inr[OF authenticateToken_b])
qed

theorem post_reviews_recomputes_aggregate_witness:
  "schema_ok example_db
   \<and> status (fst (post_reviews 5 (review_of (Some 5)) user_b example_db)) = 201
   \<and> map p_nombre_avis (prestataire_profiles
         (snd (post_reviews 5 (review_of (Some 5)) user_b example_db))) = [Some 1]
   \<and> map p_note_moyenne (prestataire_profiles
         (snd (post_reviews 5 (review_of (Some 5)) user_b example_db))) = [Some 500]"
proof -
  let ?R = "post_reviews 5 (review_of (Some 5)) user_b example_db"
  have nc: "note_check (Some 5)" by (simp add: note_check_def)
  have ev: "?R = (\<lparr>status = 201, body = ReviewBody msg_avis_ajoute \<lparr>r_id = 1, r_booking_id = 1,
        r_note = Some 5, r_commentaire = None, r_photos_review = None, r_created_at = 5\<rparr>\<rparr>,
      example_db\<lparr>reviews_id_seq := 2,
        reviews := [\<lparr>r_id = 1, r_booking_id = 1, r_note = Some 5,
          r_commentaire = None, r_photos_review = None, r_created_at = 5\<rparr>],
        prestataire_profiles :=
          [example_profile\<lparr>p_note_moyenne := Some 500, p_nombre_avis := Some 1\<rparr>]\<rparr>)"
    by (rule post_reviews_example[OF nc]) (simp add: avg_note_example numeric_3_2_5)
  then have st: "status (fst ?R) = 201" by simp
  from post_reviews_recomputes_aggregate[OF schema_ok_example prod.collapse[symmetric] st]
  obtain booking review where
    a: "Some (b_id booking) = vq_booking_id (review_of (Some 5))"
      "booking \<in> set (bookings example_db)"
      "\<forall>p \<in> set (prestataire_profiles (snd ?R)). p_id p = b_prestataire_id booking \<longrightarrow>
         p_nombre_avis p = Some (int (length (reviews_join_bookings (snd ?R) (p_id p))))
         \<and> p_note_moyenne p = (if ratings (snd ?R) (p_id p) = [] then None
                                else Some (mean_2dp (ratings (snd ?R) (p_id p))))"
    by blast
  from a(2) have "booking = example_booking" by (simp add: example_db_def)
  then have pid: "b_prestataire_id booking = 1" by (simp add: example_booking_def)
  have ps: "prestataire_profiles (snd ?R)
            = [example_profile\<lparr>p_note_moyenne := Some 500, p_nombre_avis := Some 1\<rparr>]"
    unfolding ev by simp
  have j: "length (reviews_join_bookings (snd ?R) 1) = 1" "ratings (snd ?R) 1 = [5]"
    unfolding ev
    by (simp_all add: ratings_def reviews_join_bookings_def example_db_def example_booking_def)
  from a(3) have "p_nombre_avis (hd (prestataire_profiles (snd ?R))) = Some 1
      \<and> p_note_moyenne (hd (prestataire_profiles (snd ?R))) = Some 500"
    unfolding pid by (simp add: ps j example_profile_def mean_2dp_5)
  with st show ?thesis by (simp add: schema_ok_example ps)
qed

section \<open>Updating the status of a booking\<close>









section \<open>Login failures\<close>






section \<open>Login after registration\<close>
















lemma post_auth_register_201:
  assumes "post_auth_register ev now salt req d = (resp, d1)" "status resp = 201"
  shows "\<exists>newUser pw dm.
           rq_password req = Some pw
           \<and> [u \<leftarrow> users d. Some (u_email u) = rq_email req] = []
           \<and> insert_user d now (rq_email req) (bcrypt_hash ev salt pw) (rq_full_name req)
                (rq_phone req) (rq_role req) (rq_ville req) (rq_secteur req) = (Some newUser, dm)
           \<and> resp = register_created ev now req newUser
           \<and> (if rq_role req = Some ''prestataire''
               then \<exists>p. insert_profile dm (u_id newUser) metier_general = (Some p, d1)
               else d1 = dm)"
proof -
  have sel: "[u \<leftarrow> users d. Some (u_email u) = rq_email req] = []"
  proof (rule ccontr)
    assume "[u \<leftarrow> users d. Some (u_email u) = rq_email req] \<noteq> []"
    with assms(1) have "resp = \<lparr>status = 400, body = ErrorBody msg_email_utilise\<rparr>"
      by (simp add: post_auth_register_def)
    with assms(2) show False by simp
  qed
  have "rq_password req \<noteq> None"
  proof
    assume "rq_password req = None"
    with assms(1) sel have "resp = erreur_serveur" by (simp add: post_auth_register_def)
    with assms(2) show False by (simp add: erreur_serveur_def)
  qed
  then obtain pw where pw: "rq_password req = Some pw" by auto
  obtain res dm where ins: "insert_user d now (rq_email req) (bcrypt_hash ev salt pw)
      (rq_full_name req) (rq_phone req) (rq_role req) (rq_ville req) (rq_secteur req) = (res, dm)"
    by (cases "insert_user d now (rq_email req) (bcrypt_hash ev salt pw)
      (rq_full_name req) (rq_phone req) (rq_role req) (rq_ville req) (rq_secteur req)")
  have "res \<noteq> None"
  proof
    assume "res = None"
    with assms(1) sel pw ins have "resp = erreur_serveur" by (simp add: post_auth_register_def)
    with assms(2) show False by (simp add: erreur_serveur_def)
  qed
  then obtain newUser where res: "res = Some newUser" by auto
  show ?thesis
  proof (cases "rq_role req = Some ''prestataire''")
    case False
    with assms(1) sel pw ins res
    have "resp = register_created ev now req newUser" "d1 = dm"
      by (simp_all add: post_auth_register_def)
    with sel pw ins res False show ?thesis by simp
  next
    case True
    obtain res2 d2 where insp: "insert_profile dm (u_id newUser) metier_general = (res2, d2)"
      by (cases "insert_profile dm (u_id newUser) metier_general")
    have "res2 \<noteq> None"
    proof
      assume "res2 = None"
      with assms(1) sel pw ins res True insp have "resp = erreur_serveur"
        by (simp add: post_auth_register_def)
      with assms(2) show False by (simp add: erreur_serveur_def)
    qed
    then obtain p where p: "res2 = Some p" by auto
    with assms(1) sel pw ins res True insp
    have "resp = register_created ev now req newUser" "d1 = d2"
      by (simp_all add: post_auth_register_def)
    with sel pw ins res True insp p show ?thesis by simp
  qed
qed




section \<open>Registration\<close>












section \<open>One profile per provider\<close>


lemma insert_user_profiles:
  "insert_user d now em h fn ph ro vi se = (res, d1) \<Longrightarrow>
   prestataire_profiles d1 = prestataire_profiles d"
  by (cases res) (auto dest: insert_user_None insert_user_Some)

lemma insert_profile_None_profiles:
  "insert_profile d uid m = (None, d1) \<Longrightarrow> prestataire_profiles d1 = prestataire_profiles d"
  by (auto dest: insert_profile_None)

lemma post_auth_register_profiles:
  "prestataire_profiles (snd (post_auth_register ev now salt req d)) = prestataire_profiles d
   \<or> (\<exists>u p. rq_role req = Some ''prestataire''
          \<and> status (fst (post_auth_register ev now salt req d)) = 201
          \<and> prestataire_profiles (snd (post_auth_register ev now salt req d))
              = prestataire_profiles d @ [p]
          \<and> p_user_id p \<notin> set (map p_user_id (prestataire_profiles d)))"
proof (cases "[u \<leftarrow> users d. Some (u_email u) = rq_email req] \<noteq> [] \<or> rq_password req = None")
  case True
  then show ?thesis by (auto simp: post_auth_register_def)
next
  case False
  then obtain pw where pw: "rq_password req = Some pw" by auto
  obtain res dm where ins: "insert_user d now (rq_email req) (bcrypt_hash ev salt pw)
      (rq_full_name req) (rq_phone req) (rq_role req) (rq_ville req) (rq_secteur req) = (res, dm)"
    by (cases "insert_user d now (rq_email req) (bcrypt_hash ev salt pw)
      (rq_full_name req) (rq_phone req) (rq_role req) (rq_ville req) (rq_secteur req)")
  note pm = insert_user_profiles[OF ins]
  show ?thesis
  proof (cases res)
    case None
    with False pw ins have "snd (post_auth_register ev now salt req d) = dm"
      by (simp add: post_auth_register_def)
    then show ?thesis unfolding pm[symmetric] by simp
  next
    case (Some newUser)
    show ?thesis
    proof (cases "rq_role req = Some ''prestataire''")
      case nr: False
      with False pw ins Some have "snd (post_auth_register ev now salt req d) = dm"
        by (simp add: post_auth_register_def)
      then show ?thesis unfolding pm[symmetric] by simp
    next
      case True
      obtain res2 d2 where insp: "insert_profile dm (u_id newUser) metier_general = (res2, d2)"
        by (cases "insert_profile dm (u_id newUser) metier_general")
      show ?thesis
      proof (cases res2)
        case None
        with False pw ins Some True insp have "snd (post_auth_register ev now salt req d) = d2"
          by (simp add: post_auth_register_def)
        moreover have "prestataire_profiles d2 = prestataire_profiles dm"
          using insp None by (auto dest: insert_profile_None)
        ultimately show ?thesis unfolding pm[symmetric] by simp
      next
        case sp: (Some p)
        with False pw ins Some True insp
        have r: "post_auth_register ev now salt req d = (register_created ev now req newUser, d2)"
          by (simp add: post_auth_register_def)
        from insp sp have shp: "prestataire_profiles d2 = prestataire_profiles dm @ [p]"
          "p_user_id p \<notin> set (map p_user_id (prestataire_profiles dm))"
          by (auto dest: insert_profile_Some)
        have "status (fst (post_auth_register ev now salt req d)) = 201"
          unfolding r by (simp add: register_created_def)
        moreover have "prestataire_profiles (snd (post_auth_register ev now salt req d))
              = prestataire_profiles d @ [p]" unfolding r using shp(1) pm by simp
        moreover have "p_user_id p \<notin> set (map p_user_id (prestataire_profiles d))"
          using shp(2) unfolding pm .
        ultimately show ?thesis using True by blast
      qed
    qed
  qed
qed







lemma post_services_profiles:
  "prestataire_profiles (snd (post_services now req user d)) = prestataire_profiles d"
  by (auto simp: post_services_def split: list.splits option.splits prod.splits
      dest: insert_service_None insert_service_Some)



lemma post_messages_profiles:
  "prestataire_profiles (snd (post_messages now req user d)) = prestataire_profiles d"
  by (auto simp: post_messages_def split: option.splits prod.splits
      dest: insert_message_None insert_message_Some)






section \<open>The provider detail and the password column\<close>




lemma joined_row_password: "joined_row u p ''password'' = Some (VStr (u_password u))"
  by (simp add: joined_row_def user_columns_def profile_columns_def map_add_def)

lemma joined_row_id: "row_id (joined_row u p) = Some (p_id p)"
  by (simp add: row_id_def joined_row_def user_columns_def profile_columns_def map_add_def)

lemma prestataireResult_rows:
  "row \<in> set (prestataireResult i d) \<Longrightarrow>
   \<exists>u p. u \<in> set (users d) \<and> p \<in> set (prestataire_profiles d) \<and> row = joined_row u p
         \<and> u_id u = i \<and> p_user_id p = i \<and> u_role u = ''prestataire''"
  by (auto simp: prestataireResult_def users_join_profiles_def)

lemma get_prestataire_returns_password:
  assumes "status (fst (get_prestataire i d)) = 200"
  shows "\<exists>u \<in> set (users d). u_id u = i
           \<and> prestataire_of (fst (get_prestataire i d)) ''password'' = Some (VStr (u_password u))"
proof (cases "prestataireResult i d")
  case Nil
  with assms show ?thesis by (simp add: get_prestataire_def)
next
  case (Cons row rest)
  then have "row \<in> set (prestataireResult i d)" by simp
  from prestataireResult_rows[OF this] obtain u p where
    "u \<in> set (users d)" "row = joined_row u p" "u_id u = i" by blast
  with Cons show ?thesis
    by (auto simp: get_prestataire_def prestataire_of_def joined_row_password)
qed

lemma get_prestataire_part_000_strips_password:
  "prestataire_of (fst (get_prestataire_part_000 i d)) ''password'' = None"
  by (simp add: get_prestataire_part_000_def prestataire_of_def split: list.splits)

text \<open>
  Claim C1 does not hold of the handler of server.js. GET /api/prestataires/1 on the store
  of the scenario answers 200, and the \<open>prestataire\<close> object of the answer carries the
  column \<open>password\<close> of the joined \<open>users\<close> row, the stored hash of provider A. (The copy
  of the handler in src/unnamed/part\_000 removes the field, see
  \<open>get_prestataire_part_000_strips_password\<close>.)
\<close>

theorem get_prestataire_leaks_password:
  "status (fst (get_prestataire 1 example_db)) = 200
   \<and> prestataire_of (fst (get_prestataire 1 example_db)) ''password'' = Some (VStr ''$2a$10$pa'')
   \<and> prestataire_of (fst (get_prestataire_part_000 1 example_db)) ''password'' = None"
  by (simp add: get_prestataire_def get_prestataire_part_000_def prestataire_of_def
      prestataireResult_def users_join_profiles_def example_db_def example_users_def
      example_profile_def joined_row_password)

section \<open>Listing providers by city\<close>


























section \<open>The aggregate columns in every reachable state\<close>

text \<open>
  Requests other than a successful review creation leave the join of reviews and bookings
  of every provider as it was, up to the columns of the bookings that a status update
  rewrites; a successful creation appends one pair to the join of the booking's provider
  and recomputes that provider's columns from the whole join.
\<close>

lemma post_auth_register_reviews_bookings:
  "reviews (snd (post_auth_register ev now salt req d)) = reviews d
   \<and> bookings (snd (post_auth_register ev now salt req d)) = bookings d"
proof (cases "[u \<leftarrow> users d. Some (u_email u) = rq_email req] \<noteq> [] \<or> rq_password req = None")
  case True
  then show ?thesis by (auto simp: post_auth_register_def)
next
  case False
  then obtain pw where pw: "rq_password req = Some pw" by auto
  obtain res dm where ins: "insert_user d now (rq_email req) (bcrypt_hash ev salt pw)
      (rq_full_name req) (rq_phone req) (rq_role req) (rq_ville req) (rq_secteur req) = (res, dm)"
    by (cases "insert_user d now (rq_email req) (bcrypt_hash ev salt pw)
      (rq_full_name req) (rq_phone req) (rq_role req) (rq_ville req) (rq_secteur req)")
  have m: "reviews dm = reviews d \<and> bookings dm = bookings d"
    using ins by (cases res) (auto dest: insert_user_None insert_user_Some)
  obtain res2 d2 where insp: "insert_profile dm (u_id (the res)) metier_general = (res2, d2)"
    by (cases "insert_profile dm (u_id (the res)) metier_general")
  have m2: "reviews d2 = reviews dm \<and> bookings d2 = bookings dm"
    using insp by (cases res2) (auto dest: insert_profile_None insert_profile_Some)
  have "snd (post_auth_register ev now salt req d) = dm
        \<or> snd (post_auth_register ev now salt req d) = d2"
    using False pw ins insp by (cases res; cases res2) (simp_all add: post_auth_register_def)
  then show ?thesis
  proof
    assume "snd (post_auth_register ev now salt req d) = dm"
    then show ?thesis unfolding m[THEN conjunct1, symmetric] m[THEN conjunct2, symmetric]
      by simp
  next
    assume e: "snd (post_auth_register ev now salt req d) = d2"
    have "reviews d2 = reviews d" "bookings d2 = bookings d"
      using m m2 by (simp_all only:)
    then show ?thesis unfolding e by (intro conjI)
  qed
qed

lemma put_prestataires_profile_reviews_bookings:
  "reviews (snd (put_prestataires_profile req user d)) = reviews d
   \<and> bookings (snd (put_prestataires_profile req user d)) = bookings d"
  by (simp add: put_prestataires_profile_def Let_def split: list.splits option.splits)

lemma post_services_reviews_bookings:
  "reviews (snd (post_services now req user d)) = reviews d
   \<and> bookings (snd (post_services now req user d)) = bookings d"
  by (auto simp: post_services_def split: list.splits option.splits prod.splits
      dest: insert_service_None insert_service_Some)

lemma post_messages_reviews_bookings:
  "reviews (snd (post_messages now req user d)) = reviews d
   \<and> bookings (snd (post_messages now req user d)) = bookings d"
  by (auto simp: post_messages_def split: option.splits prod.splits
      dest: insert_message_None insert_message_Some)

lemma post_bookings_effect:
  "snd (post_bookings now req user d) = d\<lparr>bookings_id_seq := bookings_id_seq d + 1\<rparr>
   \<or> (\<exists>nb. snd (post_bookings now req user d)
             = d\<lparr>bookings_id_seq := bookings_id_seq d + 1, bookings := bookings d @ [nb]\<rparr>
           \<and> b_id nb = bookings_id_seq d)"
  by (auto simp: post_bookings_def split: option.splits prod.splits
      dest: insert_booking_None insert_booking_Some)

lemma put_bookings_status_effect:
  "snd (put_bookings_status now i st user d) = d
   \<or> snd (put_bookings_status now i st user d)
       = d\<lparr>bookings := map (\<lambda>b. if b_id b = i then b\<lparr>b_statut := st, b_updated_at := now\<rparr> else b)
                          (bookings d)\<rparr>"
  by (simp add: put_bookings_status_def Let_def split: list.splits)

lemma join_bookings_snoc:
  assumes "\<forall>r \<in> set rs. r_booking_id r \<noteq> b_id nb"
  shows "[(r, b). r \<leftarrow> rs, b \<leftarrow> bs @ [nb], r_booking_id r = b_id b, b_prestataire_id b = pid]
         = [(r, b). r \<leftarrow> rs, b \<leftarrow> bs, r_booking_id r = b_id b, b_prestataire_id b = pid]"
  using assms by (induction rs) simp_all

lemma join_one_map:
  assumes "\<And>b. b_id (g b) = b_id b" "\<And>b. b_prestataire_id (g b) = b_prestataire_id b"
  shows "map fst [(r, b). b \<leftarrow> map g bs, bid = b_id b, b_prestataire_id b = pid]
         = map fst [(r, b). b \<leftarrow> bs, bid = b_id b, b_prestataire_id b = pid]"
  by (induction bs) (simp_all add: assms)

lemma join_bookings_map:
  assumes "\<And>b. b_id (g b) = b_id b" "\<And>b. b_prestataire_id (g b) = b_prestataire_id b"
  shows "map fst [(r, b). r \<leftarrow> rs, b \<leftarrow> map g bs, r_booking_id r = b_id b,
                          b_prestataire_id b = pid]
         = map fst [(r, b). r \<leftarrow> rs, b \<leftarrow> bs, r_booking_id r = b_id b,
                            b_prestataire_id b = pid]"
proof (induction rs)
  case Nil
  then show ?case by simp
next
  case (Cons r rs)
  have "map fst [(r, b). b \<leftarrow> map g bs, r_booking_id r = b_id b, b_prestataire_id b = pid]
        = map fst [(r, b). b \<leftarrow> bs, r_booking_id r = b_id b, b_prestataire_id b = pid]"
    by (rule join_one_map[OF assms])
  with Cons show ?case by simp
qed

lemma aggregate_of_frame:
  assumes "map fst (reviews_join_bookings d' pid) = map fst (reviews_join_bookings d pid)"
  shows "aggregate_of d' pid = aggregate_of d pid"
proof -
  have n: "map (\<lambda>rb. r_note (fst rb)) (reviews_join_bookings d' pid)
           = map (\<lambda>rb. r_note (fst rb)) (reviews_join_bookings d pid)"
    using arg_cong[OF assms, of "map r_note"] by (simp add: comp_def)
  have l: "length (reviews_join_bookings d' pid) = length (reviews_join_bookings d pid)"
    using arg_cong[OF assms, of length] by simp
  then have e: "reviews_join_bookings d' pid = [] \<longleftrightarrow> reviews_join_bookings d pid = []"
    by (metis length_0_conv)
  have r: "ratings d' pid = ratings d pid" unfolding ratings_def n ..
  show ?thesis unfolding aggregate_of_def count_avis_def l e r ..
qed

lemma aggregate_ok_frame:
  assumes "aggregate_ok d" "prestataire_profiles d' = prestataire_profiles d"
    "\<And>pid. map fst (reviews_join_bookings d' pid) = map fst (reviews_join_bookings d pid)"
  shows "aggregate_ok d'"
  using assms(1) unfolding aggregate_ok_def assms(2) aggregate_of_frame[OF assms(3)] .

lemma aggregate_ok_same_tables:
  assumes "aggregate_ok d" "prestataire_profiles d' = prestataire_profiles d"
    "reviews d' = reviews d" "bookings d' = bookings d"
  shows "aggregate_ok d'"
proof (rule aggregate_ok_frame[OF assms(1,2)])
  fix pid
  show "map fst (reviews_join_bookings d' pid) = map fst (reviews_join_bookings d pid)"
    unfolding reviews_join_bookings_frame[OF assms(3,4)] ..
qed

lemma ball_map:
  assumes "\<And>q. q \<in> set ps \<Longrightarrow> Q (g q)"
  shows "\<forall>p \<in> set (map g ps). Q p"
  using assms by simp

lemma insert_profile_Some_aggregate:
  "insert_profile d uid m = (Some row, d1) \<Longrightarrow>
   p_nombre_avis row = Some 0 \<and> p_note_moyenne row = Some 0"
  by (auto simp: insert_profile_def Let_def split: if_splits)

lemma post_auth_register_new_profile:
  assumes "prestataire_profiles (snd (post_auth_register ev now salt req d))
           \<noteq> prestataire_profiles d"
  shows "\<exists>p. prestataire_profiles (snd (post_auth_register ev now salt req d))
               = prestataire_profiles d @ [p]
             \<and> p_id p = prestataire_profiles_id_seq d
             \<and> p_nombre_avis p = Some 0 \<and> p_note_moyenne p = Some 0"
proof -
  let ?R = "post_auth_register ev now salt req d"
  have "rq_role req = Some ''prestataire'' \<and> status (fst ?R) = 201"
  proof (rule disjE[OF post_auth_register_profiles[of ev now salt req d]])
    assume "prestataire_profiles (snd ?R) = prestataire_profiles d"
    with assms show ?thesis by (rule notE)
  next
    assume "\<exists>u p. rq_role req = Some ''prestataire'' \<and> status (fst ?R) = 201
            \<and> prestataire_profiles (snd ?R) = prestataire_profiles d @ [p]
            \<and> p_user_id p \<notin> set (map p_user_id (prestataire_profiles d))"
    then show ?thesis by (elim exE conjE) (rule conjI)
  qed
  then have ro: "rq_role req = Some ''prestataire''" and st: "status (fst ?R) = 201"
    by (rule conjunct1, rule conjunct2)
  from post_auth_register_201[OF prod.collapse[symmetric] st]
  obtain u pw dm where
    ins: "insert_user d now (rq_email req) (bcrypt_hash ev salt pw) (rq_full_name req)
            (rq_phone req) (rq_role req) (rq_ville req) (rq_secteur req) = (Some u, dm)"
    and rest: "if rq_role req = Some ''prestataire''
               then \<exists>p. insert_profile dm (u_id u) metier_general = (Some p, snd ?R)
               else snd ?R = dm"
    by (elim exE conjE)
  from rest ro have "\<exists>p. insert_profile dm (u_id u) metier_general = (Some p, snd ?R)"
    by (simp only: if_True refl)
  then obtain p where insp: "insert_profile dm (u_id u) metier_general = (Some p, snd ?R)"
    by (elim exE)
  note su = insert_user_Some[OF ins]
  have pm: "prestataire_profiles dm = prestataire_profiles d"
    by (rule insert_user_profiles[OF ins])
  have "dm = d\<lparr>users_id_seq := users_id_seq d + 1, users := users d @ [u]\<rparr>"
    using su by (rule conjunct1)
  then have sq: "prestataire_profiles_id_seq dm = prestataire_profiles_id_seq d" by simp
  note sp = insert_profile_Some[OF insp]
  have "snd ?R = dm\<lparr>prestataire_profiles_id_seq := prestataire_profiles_id_seq dm + 1,
          prestataire_profiles := prestataire_profiles dm @ [p]\<rparr>"
    using sp by (rule conjunct1)
  then have "prestataire_profiles (snd ?R) = prestataire_profiles dm @ [p]" by simp
  then have 1: "prestataire_profiles (snd ?R) = prestataire_profiles d @ [p]"
    unfolding pm .
  have "p_id p = prestataire_profiles_id_seq dm"
    using sp by (elim conjE)
  then have 2: "p_id p = prestataire_profiles_id_seq d" unfolding sq .
  have 3: "p_nombre_avis p = Some 0" "p_note_moyenne p = Some 0"
    using insert_profile_Some_aggregate[OF insp] by (rule conjunct1, rule conjunct2)
  show ?thesis by (intro exI[of _ p] conjI) (fact 1 2 3)+
qed

lemma join_no_provider_one:
  assumes "\<forall>b \<in> set bs. b_prestataire_id b \<noteq> pid"
  shows "[(r, b). b \<leftarrow> bs, bid = b_id b, b_prestataire_id b = pid] = []"
proof -
  have "[x \<leftarrow> [x \<leftarrow> bs. b_id x = bid]. b_prestataire_id x = pid] = []"
    unfolding filter_empty_conv using assms by simp
  then show ?thesis unfolding join_one_review by simp
qed

lemma join_no_provider:
  assumes "\<forall>b \<in> set bs. b_prestataire_id b \<noteq> pid"
  shows "[(r, b). r \<leftarrow> rs, b \<leftarrow> bs, r_booking_id r = b_id b, b_prestataire_id b = pid] = []"
proof (induction rs)
  case Nil
  show ?case by simp
next
  case (Cons r rs)
  have one: "[(r, b). b \<leftarrow> bs, r_booking_id r = b_id b, b_prestataire_id b = pid] = []"
    by (rule join_no_provider_one[OF assms])
  have step: "[(r', b). r' \<leftarrow> r # rs, b \<leftarrow> bs, r_booking_id r' = b_id b,
                        b_prestataire_id b = pid]
              = [(r, b). b \<leftarrow> bs, r_booking_id r = b_id b, b_prestataire_id b = pid]
                @ [(r', b). r' \<leftarrow> rs, b \<leftarrow> bs, r_booking_id r' = b_id b,
                            b_prestataire_id b = pid]"
    by simp
  show ?case unfolding step one Cons.IH by simp
qed

lemma no_booking_of_fresh_profile:
  assumes "schema_ok d"
  shows "reviews_join_bookings d (prestataire_profiles_id_seq d) = []"
proof -
  have "\<forall>b \<in> set (bookings d). b_prestataire_id b \<noteq> prestataire_profiles_id_seq d"
    using assms by (fastforce simp: schema_ok_def bookings_inv_def profiles_inv_def)
  then show ?thesis unfolding reviews_join_bookings_def by (rule join_no_provider)
qed

lemma post_auth_register_aggregate_ok:
  assumes "schema_ok d" "aggregate_ok d"
  shows "aggregate_ok (snd (post_auth_register ev now salt req d))"
proof (cases "prestataire_profiles (snd (post_auth_register ev now salt req d))
              = prestataire_profiles d")
  case True
  show ?thesis
    by (rule aggregate_ok_same_tables[OF assms(2) True])
      (simp_all add: post_auth_register_reviews_bookings)
next
  case False
  let ?d' = "snd (post_auth_register ev now salt req d)"
  from post_auth_register_new_profile[OF False] obtain p where
    ps: "prestataire_profiles ?d' = prestataire_profiles d @ [p]"
    and pid: "p_id p = prestataire_profiles_id_seq d"
    and z: "p_nombre_avis p = Some 0" "p_note_moyenne p = Some 0" by blast
  have fr: "reviews ?d' = reviews d" "bookings ?d' = bookings d"
    by (simp_all add: post_auth_register_reviews_bookings)
  have same: "\<And>pid. aggregate_of ?d' pid = aggregate_of d pid"
    by (rule aggregate_of_frame) (simp only: reviews_join_bookings_frame[OF fr])
  have new: "aggregate_of d (p_id p) = (Some 0, Some 0)"
    unfolding pid by (simp add: aggregate_of_def count_avis_def no_booking_of_fresh_profile[OF assms(1)])
  show ?thesis
    unfolding aggregate_ok_def ps same
    using assms(2) z new by (simp add: aggregate_ok_def)
qed

lemma put_prestataires_profile_effect:
  "snd (put_prestataires_profile req user d) = d
   \<or> (\<exists>g. snd (put_prestataires_profile req user d)
             = d\<lparr>prestataire_profiles := map g (prestataire_profiles d)\<rparr>
           \<and> (\<forall>p. p_id (g p) = p_id p \<and> p_nombre_avis (g p) = p_nombre_avis p
                   \<and> p_note_moyenne (g p) = p_note_moyenne p))"
proof (cases "[p \<leftarrow> prestataire_profiles d. p_user_id p = userId user] = [] \<or> fq_metier req = None")
  case True
  then have "snd (put_prestataires_profile req user d) = d"
    by (auto simp: put_prestataires_profile_def split: list.splits)
  then show ?thesis by (rule disjI1)
next
  case False
  then obtain p0 rest metier where
    c: "[p \<leftarrow> prestataire_profiles d. p_user_id p = userId user] = p0 # rest"
      "fq_metier req = Some metier"
    by (cases "[p \<leftarrow> prestataire_profiles d. p_user_id p = userId user]") auto
  let ?f = "\<lambda>p. p\<lparr>p_metier := metier, p_description := fq_description req,
                  p_annees_experience := fq_annees_experience req,
                  p_tarif_horaire := fq_tarif_horaire req,
                  p_zone_intervention := fq_zone_intervention req,
                  p_adresse := fq_adresse req, p_portfolio := fq_portfolio req,
                  p_disponibilites := fq_disponibilites req\<rparr>"
  let ?g = "\<lambda>p. if p_user_id p = userId user then ?f p else p"
  have 1: "snd (put_prestataires_profile req user d)
           = d\<lparr>prestataire_profiles := map ?g (prestataire_profiles d)\<rparr>"
    using c by (simp add: put_prestataires_profile_def Let_def)
  have 2: "\<forall>p. p_id (?g p) = p_id p \<and> p_nombre_avis (?g p) = p_nombre_avis p
               \<and> p_note_moyenne (?g p) = p_note_moyenne p" by simp
  show ?thesis by (rule disjI2, rule exI[of _ ?g], rule conjI) (fact 1 2)+
qed

lemma aggregate_ok_map_profiles:
  assumes "aggregate_ok d"
    "\<forall>p. p_id (g p) = p_id p \<and> p_nombre_avis (g p) = p_nombre_avis p
         \<and> p_note_moyenne (g p) = p_note_moyenne p"
  shows "aggregate_ok (d\<lparr>prestataire_profiles := map g (prestataire_profiles d)\<rparr>)"
proof -
  let ?d' = "d\<lparr>prestataire_profiles := map g (prestataire_profiles d)\<rparr>"
  have same: "\<And>pid. aggregate_of ?d' pid = aggregate_of d pid"
    by (rule aggregate_of_frame) (simp add: reviews_join_bookings_def)
  have "\<forall>p \<in> set (map g (prestataire_profiles d)).
          (p_nombre_avis p, p_note_moyenne p) = aggregate_of d (p_id p)"
  proof (rule ball_map)
    fix q assume "q \<in> set (prestataire_profiles d)"
    with assms(1) have "(p_nombre_avis q, p_note_moyenne q) = aggregate_of d (p_id q)"
      unfolding aggregate_ok_def by (rule bspec)
    then show "(p_nombre_avis (g q), p_note_moyenne (g q)) = aggregate_of d (p_id (g q))"
      using assms(2) by simp
  qed
  then show ?thesis unfolding aggregate_ok_def same by simp
qed

lemma put_prestataires_profile_aggregate_ok:
  assumes "aggregate_ok d"
  shows "aggregate_ok (snd (put_prestataires_profile req user d))"
proof (rule disjE[OF put_prestataires_profile_effect[of req user d]])
  assume "snd (put_prestataires_profile req user d) = d"
  then show ?thesis using assms by (simp only:)
next
  assume "\<exists>g. snd (put_prestataires_profile req user d)
             = d\<lparr>prestataire_profiles := map g (prestataire_profiles d)\<rparr>
           \<and> (\<forall>p. p_id (g p) = p_id p \<and> p_nombre_avis (g p) = p_nombre_avis p
                   \<and> p_note_moyenne (g p) = p_note_moyenne p)"
  then obtain g where e: "snd (put_prestataires_profile req user d)
             = d\<lparr>prestataire_profiles := map g (prestataire_profiles d)\<rparr>"
    and g: "\<forall>p. p_id (g p) = p_id p \<and> p_nombre_avis (g p) = p_nombre_avis p
                   \<and> p_note_moyenne (g p) = p_note_moyenne p"
    by (elim exE conjE)
  show ?thesis unfolding e by (rule aggregate_ok_map_profiles[OF assms g])
qed

lemma post_bookings_aggregate_ok:
  assumes "schema_ok d" "aggregate_ok d"
  shows "aggregate_ok (snd (post_bookings now req user d))"
proof (rule disjE[OF post_bookings_effect[of now req user d]])
  assume e: "snd (post_bookings now req user d) = d\<lparr>bookings_id_seq := bookings_id_seq d + 1\<rparr>"
  show ?thesis unfolding e
    by (rule aggregate_ok_same_tables[OF assms(2)]) simp_all
next
  assume "\<exists>nb. snd (post_bookings now req user d)
             = d\<lparr>bookings_id_seq := bookings_id_seq d + 1, bookings := bookings d @ [nb]\<rparr>
           \<and> b_id nb = bookings_id_seq d"
  then obtain nb where e: "snd (post_bookings now req user d)
             = d\<lparr>bookings_id_seq := bookings_id_seq d + 1, bookings := bookings d @ [nb]\<rparr>"
    and i: "b_id nb = bookings_id_seq d" by (elim exE conjE)
  have "\<forall>r \<in> set (reviews d). r_booking_id r < bookings_id_seq d"
    using assms(1) by (fastforce simp: schema_ok_def reviews_inv_def bookings_inv_def)
  then have ne: "\<forall>r \<in> set (reviews d). r_booking_id r \<noteq> b_id nb"
    unfolding i by fastforce
  show ?thesis unfolding e
  proof (rule aggregate_ok_frame[OF assms(2)])
    show "prestataire_profiles (d\<lparr>bookings_id_seq := bookings_id_seq d + 1,
            bookings := bookings d @ [nb]\<rparr>) = prestataire_profiles d" by simp
    fix pid
    have "reviews_join_bookings (d\<lparr>bookings_id_seq := bookings_id_seq d + 1,
            bookings := bookings d @ [nb]\<rparr>) pid = reviews_join_bookings d pid"
      unfolding reviews_join_bookings_def using join_bookings_snoc[OF ne] by simp
    then show "map fst (reviews_join_bookings (d\<lparr>bookings_id_seq := bookings_id_seq d + 1,
            bookings := bookings d @ [nb]\<rparr>) pid) = map fst (reviews_join_bookings d pid)"
      by (rule arg_cong)
  qed
qed

lemma put_bookings_status_aggregate_ok:
  assumes "aggregate_ok d"
  shows "aggregate_ok (snd (put_bookings_status now i st user d))"
proof (rule disjE[OF put_bookings_status_effect[of now i st user d]])
  assume "snd (put_bookings_status now i st user d) = d"
  then show ?thesis using assms by (simp only:)
next
  let ?g = "\<lambda>b. if b_id b = i then b\<lparr>b_statut := st, b_updated_at := now\<rparr> else b"
  assume e: "snd (put_bookings_status now i st user d) = d\<lparr>bookings := map ?g (bookings d)\<rparr>"
  show ?thesis unfolding e
  proof (rule aggregate_ok_frame[OF assms])
    show "prestataire_profiles (d\<lparr>bookings := map ?g (bookings d)\<rparr>) = prestataire_profiles d"
      by simp
    fix pid
    have "map fst [(r, b). r \<leftarrow> reviews d, b \<leftarrow> map ?g (bookings d), r_booking_id r = b_id b,
                           b_prestataire_id b = pid]
          = map fst [(r, b). r \<leftarrow> reviews d, b \<leftarrow> bookings d, r_booking_id r = b_id b,
                             b_prestataire_id b = pid]"
      by (rule join_bookings_map) simp_all
    then show "map fst (reviews_join_bookings (d\<lparr>bookings := map ?g (bookings d)\<rparr>) pid)
               = map fst (reviews_join_bookings d pid)"
      unfolding reviews_join_bookings_def by simp
  qed
qed

lemma post_services_aggregate_ok:
  assumes "aggregate_ok d"
  shows "aggregate_ok (snd (post_services now req user d))"
  by (rule aggregate_ok_same_tables[OF assms])
    (simp_all add: post_services_profiles post_services_reviews_bookings)

lemma post_messages_aggregate_ok:
  assumes "aggregate_ok d"
  shows "aggregate_ok (snd (post_messages now req user d))"
  by (rule aggregate_ok_same_tables[OF assms])
    (simp_all add: post_messages_profiles post_messages_reviews_bookings)

lemma post_reviews_201:
  assumes "status (fst (post_reviews now req user d)) = 201"
  shows "\<exists>booking rest review d1.
           bookingResult req user d = booking # rest \<and> existingReview req d = []
           \<and> insert_review d now (vq_booking_id req) (vq_note req) (vq_commentaire req)
               = (Some review, d1)
           \<and> update_note_moyenne d1 (b_prestataire_id booking)
               = Some (snd (post_reviews now req user d))
           \<and> fst (post_reviews now req user d)
               = \<lparr>status = 201, body = ReviewBody msg_avis_ajoute review\<rparr>"
proof -
  let ?R = "post_reviews now req user d"
  from assms obtain booking rest where br: "bookingResult req user d = booking # rest"
    by (cases "bookingResult req user d") (auto simp: post_reviews_def)
  have noex: "existingReview req d = []"
  proof (rule ccontr)
    assume "existingReview req d \<noteq> []"
    with br have "fst ?R = \<lparr>status = 400, body = ErrorBody msg_avis_existe\<rparr>"
      by (simp add: post_reviews_def)
    with assms show False by simp
  qed
  obtain res d1 where ins0:
    "insert_review d now (vq_booking_id req) (vq_note req) (vq_commentaire req) = (res, d1)"
    by (cases "insert_review d now (vq_booking_id req) (vq_note req) (vq_commentaire req)")
  have "res \<noteq> None"
  proof
    assume "res = None"
    with br noex ins0 have "fst ?R = erreur_serveur" by (simp add: post_reviews_def)
    with assms show False by (simp add: erreur_serveur_def)
  qed
  then obtain review where res: "res = Some review" by auto
  have ins: "insert_review d now (vq_booking_id req) (vq_note req) (vq_commentaire req)
            = (Some review, d1)" using ins0 res by simp
  have step: "?R = (case update_note_moyenne d1 (b_prestataire_id booking) of
                 None \<Rightarrow> (erreur_serveur, d1)
               | Some d2 \<Rightarrow> (\<lparr>status = 201, body = ReviewBody msg_avis_ajoute review\<rparr>, d2))"
    using br noex ins by (simp add: post_reviews_def)
  have "update_note_moyenne d1 (b_prestataire_id booking) \<noteq> None"
  proof
    assume "update_note_moyenne d1 (b_prestataire_id booking) = None"
    with step have "fst ?R = erreur_serveur" by simp
    with assms show False by (simp add: erreur_serveur_def)
  qed
  then obtain d2 where u2: "update_note_moyenne d1 (b_prestataire_id booking) = Some d2" by auto
  with step have r: "?R = (\<lparr>status = 201, body = ReviewBody msg_avis_ajoute review\<rparr>, d2)"
    by simp
  have upd: "update_note_moyenne d1 (b_prestataire_id booking) = Some (snd ?R)"
    unfolding r using u2 by simp
  have rs: "fst ?R = \<lparr>status = 201, body = ReviewBody msg_avis_ajoute review\<rparr>"
    unfolding r by simp
  show ?thesis
    by (intro exI[of _ booking] exI[of _ rest] exI[of _ review] exI[of _ d1] conjI)
      (fact br noex ins upd rs)+
qed

lemma post_reviews_not_201:
  assumes "schema_ok d" "status (fst (post_reviews now req user d)) \<noteq> 201"
  shows "reviews (snd (post_reviews now req user d)) = reviews d
         \<and> bookings (snd (post_reviews now req user d)) = bookings d"
proof (cases "bookingResult req user d = [] \<or> existingReview req d \<noteq> []")
  case True
  then have "snd (post_reviews now req user d) = d"
    by (auto simp: post_reviews_def split: list.splits)
  then show ?thesis by simp
next
  case False
  then obtain booking rest where br: "bookingResult req user d = booking # rest"
    by (cases "bookingResult req user d") auto
  from False have noex: "existingReview req d = []" by simp
  obtain res d1 where ins:
    "insert_review d now (vq_booking_id req) (vq_note req) (vq_commentaire req) = (res, d1)"
    by (cases "insert_review d now (vq_booking_id req) (vq_note req) (vq_commentaire req)")
  have "res = None"
  proof (rule ccontr)
    assume "res \<noteq> None"
    then obtain review where res: "res = Some review" by auto
    have "schema_ok d1" by (rule insert_review_schema_ok[OF assms(1) ins])
    then have "\<forall>r \<in> set (reviews d1). note_check (r_note r)"
      by (simp add: schema_ok_def reviews_inv_def)
    from update_note_moyenne_checked[OF this, of "b_prestataire_id booking"]
    obtain d2 where "update_note_moyenne d1 (b_prestataire_id booking) = Some d2" by blast
    with br noex ins res have "status (fst (post_reviews now req user d)) = 201"
      by (simp add: post_reviews_def)
    with assms(2) show False by simp
  qed
  with ins have "d1 = d\<lparr>reviews_id_seq := reviews_id_seq d + 1\<rparr>"
    by (simp add: insert_review_None)
  moreover have "snd (post_reviews now req user d) = d1"
    using br noex ins \<open>res = None\<close> by (simp add: post_reviews_def)
  ultimately have "snd (post_reviews now req user d) = d\<lparr>reviews_id_seq := reviews_id_seq d + 1\<rparr>"
    by (simp only:)
  then show ?thesis by simp
qed

lemma reviews_join_bookings_snoc_other:
  assumes "reviews d1 = reviews d @ [row]" "bookings d1 = bookings d"
    "distinct (map b_id (bookings d))" "b \<in> set (bookings d)" "r_booking_id row = b_id b"
    "pid \<noteq> b_prestataire_id b"
  shows "reviews_join_bookings d1 pid = reviews_join_bookings d pid"
proof -
  have "[x \<leftarrow> [b]. b_prestataire_id x = pid] = []" using assms(6) by simp
  then have e: "[(row, x). x \<leftarrow> bookings d, r_booking_id row = b_id x,
                           b_prestataire_id x = pid] = []"
    unfolding join_one_review assms(5) filter_unique_key[OF assms(3,4)] by simp
  have step: "[(r, x). r \<leftarrow> reviews d @ [row], x \<leftarrow> bookings d, r_booking_id r = b_id x,
                       b_prestataire_id x = pid]
              = [(r, x). r \<leftarrow> reviews d, x \<leftarrow> bookings d, r_booking_id r = b_id x,
                         b_prestataire_id x = pid]
                @ [(row, x). x \<leftarrow> bookings d, r_booking_id row = b_id x,
                             b_prestataire_id x = pid]"
    by simp
  show ?thesis
    unfolding reviews_join_bookings_def assms(1,2) step e by simp
qed

lemma update_note_moyenne_map:
  assumes "update_note_moyenne d1 pid = Some d2"
  shows "d2 = d1\<lparr>prestataire_profiles :=
           map (\<lambda>p. if p_id p = pid
                     then p\<lparr>p_note_moyenne := (case avg_note d1 (p_id p) of
                                                 None \<Rightarrow> None | Some a \<Rightarrow> a),
                            p_nombre_avis := Some (count_avis d1 (p_id p))\<rparr>
                     else p)
             (prestataire_profiles d1)\<rparr>"
  using assms by (simp add: update_note_moyenne_def split: if_splits)

lemma post_reviews_aggregate_ok:
  assumes "schema_ok d" "aggregate_ok d"
  shows "aggregate_ok (snd (post_reviews now req user d))"
proof (cases "status (fst (post_reviews now req user d)) = 201")
  case False
  have rb: "reviews (snd (post_reviews now req user d)) = reviews d"
    "bookings (snd (post_reviews now req user d)) = bookings d"
    using post_reviews_not_201[OF assms(1) False] by (rule conjunct1, rule conjunct2)
  show ?thesis
    by (rule aggregate_ok_same_tables[OF assms(2) post_reviews_profiles_unchanged[OF False] rb])
next
  case True
  let ?d' = "snd (post_reviews now req user d)"
  from post_reviews_201[OF True] obtain booking rest review d1 where
    br: "bookingResult req user d = booking # rest"
    and ins: "insert_review d now (vq_booking_id req) (vq_note req) (vq_commentaire req)
              = (Some review, d1)"
    and upd: "update_note_moyenne d1 (b_prestataire_id booking) = Some ?d'"
    by (elim exE conjE)
  let ?pid = "b_prestataire_id booking"
  note bk = bookingResult_Cons[OF br]
  note shape = insert_review_Some[OF ins]
  have d1: "d1 = d\<lparr>reviews_id_seq := reviews_id_seq d + 1, reviews := reviews d @ [review]\<rparr>"
    using shape by (rule conjunct1)
  have r1: "reviews d1 = reviews d @ [review]" and b1: "bookings d1 = bookings d"
    and p1: "prestataire_profiles d1 = prestataire_profiles d"
    unfolding d1 by simp_all
  have rb: "r_booking_id review = b_id booking" using shape bk by auto
  have inb: "booking \<in> set (bookings d)" using bk by (rule conjunct1)
  have dist: "distinct (map b_id (bookings d))"
    using assms(1) by (simp add: schema_ok_def bookings_inv_def)
  have ok1: "schema_ok d1" by (rule insert_review_schema_ok[OF assms(1) ins])
  then have checked: "\<forall>r \<in> set (reviews d1). note_check (r_note r)"
    by (simp add: schema_ok_def reviews_inv_def)
  let ?g = "\<lambda>p. if p_id p = ?pid
                 then p\<lparr>p_note_moyenne := (case avg_note d1 (p_id p) of
                                             None \<Rightarrow> None | Some a \<Rightarrow> a),
                        p_nombre_avis := Some (count_avis d1 (p_id p))\<rparr>
                 else p"
  have d': "?d' = d1\<lparr>prestataire_profiles := map ?g (prestataire_profiles d1)\<rparr>"
    by (rule update_note_moyenne_map[OF upd])
  have fr: "reviews ?d' = reviews d1" "bookings ?d' = bookings d1"
    by (subst d', simp)+
  have same1: "\<And>x. aggregate_of ?d' x = aggregate_of d1 x"
    by (rule aggregate_of_frame) (simp only: reviews_join_bookings_frame[OF fr])
  have other: "\<And>x. x \<noteq> ?pid \<Longrightarrow> aggregate_of d1 x = aggregate_of d x"
  proof (rule aggregate_of_frame)
    fix x assume "x \<noteq> ?pid"
    from reviews_join_bookings_snoc_other[OF r1 b1 dist inb rb this]
    show "map fst (reviews_join_bookings d1 x) = map fst (reviews_join_bookings d x)"
      by (rule arg_cong)
  qed
  have join: "reviews_join_bookings d1 ?pid = reviews_join_bookings d ?pid @ [(review, booking)]"
    by (rule reviews_join_bookings_snoc[OF r1 b1 dist inb rb])
  have mine: "aggregate_of d1 ?pid
              = (Some (count_avis d1 ?pid),
                 case avg_note d1 ?pid of None \<Rightarrow> None | Some a \<Rightarrow> a)"
    unfolding aggregate_of_def avg_note_mean[OF checked] join by simp
  have ps': "prestataire_profiles ?d' = map ?g (prestataire_profiles d)"
    by (subst d', simp add: p1)
  have "\<forall>p \<in> set (map ?g (prestataire_profiles d)).
          (p_nombre_avis p, p_note_moyenne p) = aggregate_of d1 (p_id p)"
  proof (rule ball_map)
    fix q assume q: "q \<in> set (prestataire_profiles d)"
    with assms(2) have old: "(p_nombre_avis q, p_note_moyenne q) = aggregate_of d (p_id q)"
      unfolding aggregate_ok_def by (rule bspec)
    show "(p_nombre_avis (?g q), p_note_moyenne (?g q)) = aggregate_of d1 (p_id (?g q))"
    proof (cases "p_id q = ?pid")
      case True
      then show ?thesis using mine by simp
    next
      case False
      then show ?thesis using old other[OF False] by simp
    qed
  qed
  then show ?thesis unfolding aggregate_ok_def ps' same1 .
qed

lemma authenticated_aggregate_ok:
  assumes "aggregate_ok d" "\<And>user. aggregate_ok (snd (handler user d))"
  shows "aggregate_ok (snd (authenticated ev now h handler d))"
  using assms by (simp add: authenticated_def split: sum.splits)

lemma app_aggregate_ok:
  assumes "schema_ok d" "aggregate_ok d"
  shows "aggregate_ok (snd (app ev rq d))"
proof (cases rq)
  case (Register now salt req)
  then show ?thesis using post_auth_register_aggregate_ok[OF assms] by simp
next
  case (Login now req)
  then show ?thesis using assms(2) by (simp add: post_auth_login_unchanged)
next
  case (GetPrestataires q)
  then show ?thesis using assms(2) by (simp add: get_prestataires_unchanged)
next
  case (GetPrestataire i)
  then show ?thesis using assms(2) by (simp add: get_prestataire_unchanged)
next
  case (PutProfile now h req)
  then show ?thesis
    using assms(2) by (simp add: authenticated_aggregate_ok put_prestataires_profile_aggregate_ok)
next
  case (PostServices now h req)
  then show ?thesis
    using assms(2) by (simp add: authenticated_aggregate_ok post_services_aggregate_ok)
next
  case (PostBookings now h req)
  then show ?thesis
    using assms by (simp add: authenticated_aggregate_ok post_bookings_aggregate_ok)
next
  case (PutBookingStatus now h i st)
  then show ?thesis
    using assms(2) by (simp add: authenticated_aggregate_ok put_bookings_status_aggregate_ok)
next
  case (PostReviews now h req)
  then show ?thesis
    using assms by (simp add: authenticated_aggregate_ok post_reviews_aggregate_ok)
next
  case (PostMessages now h req)
  then show ?thesis
    using assms(2) by (simp add: authenticated_aggregate_ok post_messages_aggregate_ok)
qed

lemma aggregate_ok_init: "aggregate_ok initDatabase"
  by (simp add: aggregate_ok_def initDatabase_def)

lemma serve_aggregate_ok:
  "schema_ok d \<Longrightarrow> aggregate_ok d \<Longrightarrow> aggregate_ok (serve ev rqs d)"
proof (induction rqs arbitrary: d)
  case Nil
  then show ?case by simp
next
  case (Cons rq rqs)
  have "schema_ok (snd (app ev rq d))" by (rule app_schema_ok[OF Cons.prems(1)])
  moreover have "aggregate_ok (snd (app ev rq d))" by (rule app_aggregate_ok[OF Cons.prems])
  ultimately show ?case unfolding serve.simps by (rule Cons.IH)
qed

lemma authenticated_preserves:
  assumes "P d" "\<And>user. P (snd (handler user d))"
  shows "P (snd (authenticated ev now h handler d))"
  using assms by (simp add: authenticated_def split: sum.splits)

lemma join_length_same_tables:
  assumes "reviews d' = reviews d \<and> bookings d' = bookings d"
  shows "length (reviews_join_bookings d' pid) = length (reviews_join_bookings d pid)"
proof -
  from assms have r: "reviews d' = reviews d" and b: "bookings d' = bookings d"
    by (rule conjunct1, rule conjunct2)
  show ?thesis unfolding reviews_join_bookings_frame[OF r b] ..
qed

lemma post_bookings_join_length:
  assumes "schema_ok d"
  shows "length (reviews_join_bookings (snd (post_bookings now req user d)) pid)
         = length (reviews_join_bookings d pid)"
proof (rule disjE[OF post_bookings_effect[of now req user d]])
  assume e: "snd (post_bookings now req user d) = d\<lparr>bookings_id_seq := bookings_id_seq d + 1\<rparr>"
  show ?thesis unfolding e by (rule join_length_same_tables) simp
next
  assume "\<exists>nb. snd (post_bookings now req user d)
             = d\<lparr>bookings_id_seq := bookings_id_seq d + 1, bookings := bookings d @ [nb]\<rparr>
           \<and> b_id nb = bookings_id_seq d"
  then obtain nb where e: "snd (post_bookings now req user d)
             = d\<lparr>bookings_id_seq := bookings_id_seq d + 1, bookings := bookings d @ [nb]\<rparr>"
    and i: "b_id nb = bookings_id_seq d" by (elim exE conjE)
  have "\<forall>r \<in> set (reviews d). r_booking_id r < bookings_id_seq d"
    using assms(1) by (fastforce simp: schema_ok_def reviews_inv_def bookings_inv_def)
  then have ne: "\<forall>r \<in> set (reviews d). r_booking_id r \<noteq> b_id nb"
    unfolding i by fastforce
  have "reviews_join_bookings (d\<lparr>bookings_id_seq := bookings_id_seq d + 1,
          bookings := bookings d @ [nb]\<rparr>) pid = reviews_join_bookings d pid"
    unfolding reviews_join_bookings_def using join_bookings_snoc[OF ne] by simp
  then show ?thesis unfolding e by (rule arg_cong)
qed

lemma put_bookings_status_join_length:
  "length (reviews_join_bookings (snd (put_bookings_status now i st user d)) pid)
   = length (reviews_join_bookings d pid)"
proof (rule disjE[OF put_bookings_status_effect[of now i st user d]])
  assume "snd (put_bookings_status now i st user d) = d"
  then show ?thesis by (simp only:)
next
  let ?g = "\<lambda>b. if b_id b = i then b\<lparr>b_statut := st, b_updated_at := now\<rparr> else b"
  assume e: "snd (put_bookings_status now i st user d) = d\<lparr>bookings := map ?g (bookings d)\<rparr>"
  have "map fst [(r, b). r \<leftarrow> reviews d, b \<leftarrow> map ?g (bookings d), r_booking_id r = b_id b,
                         b_prestataire_id b = pid]
        = map fst [(r, b). r \<leftarrow> reviews d, b \<leftarrow> bookings d, r_booking_id r = b_id b,
                           b_prestataire_id b = pid]"
    by (rule join_bookings_map) simp_all
  then have "map fst (reviews_join_bookings (d\<lparr>bookings := map ?g (bookings d)\<rparr>) pid)
             = map fst (reviews_join_bookings d pid)"
    unfolding reviews_join_bookings_def by simp
  from arg_cong[OF this, of length] show ?thesis unfolding e by simp
qed

lemma post_reviews_join_length:
  assumes "schema_ok d"
  shows "length (reviews_join_bookings (snd (post_reviews now req user d)) pid)
         = length (reviews_join_bookings d pid)
           + (if status (fst (post_reviews now req user d)) = 201
                 \<and> (\<exists>b \<in> set (bookings d). Some (b_id b) = vq_booking_id req
                                           \<and> b_prestataire_id b = pid)
              then 1 else 0)"
proof (cases "status (fst (post_reviews now req user d)) = 201")
  case False
  have "length (reviews_join_bookings (snd (post_reviews now req user d)) pid)
        = length (reviews_join_bookings d pid)"
    by (rule join_length_same_tables[OF post_reviews_not_201[OF assms False]])
  then show ?thesis using False by simp
next
  case True
  let ?d' = "snd (post_reviews now req user d)"
  from post_reviews_201[OF True] obtain booking rest review d1 where
    br: "bookingResult req user d = booking # rest"
    and ins: "insert_review d now (vq_booking_id req) (vq_note req) (vq_commentaire req)
              = (Some review, d1)"
    and upd: "update_note_moyenne d1 (b_prestataire_id booking) = Some ?d'"
    by (elim exE conjE)
  note bk = bookingResult_Cons[OF br]
  note shape = insert_review_Some[OF ins]
  have d1: "d1 = d\<lparr>reviews_id_seq := reviews_id_seq d + 1, reviews := reviews d @ [review]\<rparr>"
    using shape by (rule conjunct1)
  have r1: "reviews d1 = reviews d @ [review]" and b1: "bookings d1 = bookings d"
    unfolding d1 by simp_all
  have rb: "r_booking_id review = b_id booking" using shape bk by auto
  have inb: "booking \<in> set (bookings d)" using bk by (rule conjunct1)
  have bid: "Some (b_id booking) = vq_booking_id req" using bk by simp
  have dist: "distinct (map b_id (bookings d))"
    using assms(1) by (simp add: schema_ok_def bookings_inv_def)
  have fr: "reviews ?d' = reviews d1 \<and> bookings ?d' = bookings d1"
    by (subst (1 2) update_note_moyenne_map[OF upd]) simp
  note l1 = join_length_same_tables[OF fr]
  show ?thesis
  proof (cases "pid = b_prestataire_id booking")
    case same: True
    have "\<exists>b \<in> set (bookings d). Some (b_id b) = vq_booking_id req \<and> b_prestataire_id b = pid"
      using inb bid same by (intro bexI[of _ booking] conjI) simp_all
    moreover have "length (reviews_join_bookings d1 pid)
                   = length (reviews_join_bookings d pid) + 1"
      unfolding same reviews_join_bookings_snoc[OF r1 b1 dist inb rb] by simp
    ultimately show ?thesis using True unfolding l1 by simp
  next
    case other: False
    have "\<not> (\<exists>b \<in> set (bookings d). Some (b_id b) = vq_booking_id req
                                      \<and> b_prestataire_id b = pid)"
    proof
      assume "\<exists>b \<in> set (bookings d). Some (b_id b) = vq_booking_id req
                                     \<and> b_prestataire_id b = pid"
      then obtain b where b: "b \<in> set (bookings d)" "Some (b_id b) = vq_booking_id req"
        "b_prestataire_id b = pid" by (elim bexE conjE)
      from b(2) bid have "Some (b_id b) = Some (b_id booking)" by (rule trans[OF _ sym])
      then have "b_id b = b_id booking" by (simp only: option.inject)
      with dist b(1) inb have "b = booking" by (simp add: distinct_map inj_on_def)
      with b(3) other show False by simp
    qed
    moreover have "length (reviews_join_bookings d1 pid) = length (reviews_join_bookings d pid)"
      using reviews_join_bookings_snoc_other[OF r1 b1 dist inb rb other]
      by (rule arg_cong)
    ultimately show ?thesis unfolding l1 by simp
  qed
qed

lemma authenticated_not_201:
  "authenticateToken ev now h = Inl r \<Longrightarrow> status r \<noteq> 201"
  by (auto simp: authenticateToken_def split: option.splits list.splits if_splits word.splits)

lemma app_join_length:
  assumes "schema_ok d"
  shows "length (reviews_join_bookings (snd (app ev rq d)) pid)
         = length (reviews_join_bookings d pid)
           + (if review_created_for ev rq d pid then 1 else 0)"
proof (cases rq)
  case (Register now salt req)
  then show ?thesis
    by (simp add: review_created_for_def
        join_length_same_tables[OF post_auth_register_reviews_bookings])
next
  case (Login now req)
  then show ?thesis by (simp add: review_created_for_def post_auth_login_unchanged)
next
  case (GetPrestataires q)
  then show ?thesis by (simp add: review_created_for_def get_prestataires_unchanged)
next
  case (GetPrestataire i)
  then show ?thesis by (simp add: review_created_for_def get_prestataire_unchanged)
next
  case (PutProfile now h req)
  have "length (reviews_join_bookings
          (snd (authenticated ev now h (put_prestataires_profile req) d)) pid)
        = length (reviews_join_bookings d pid)"
    by (rule authenticated_preserves)
      (simp_all add: join_length_same_tables[OF put_prestataires_profile_reviews_bookings])
  with PutProfile show ?thesis by (simp add: review_created_for_def)
next
  case (PostServices now h req)
  have "length (reviews_join_bookings
          (snd (authenticated ev now h (post_services now req) d)) pid)
        = length (reviews_join_bookings d pid)"
    by (rule authenticated_preserves)
      (simp_all add: join_length_same_tables[OF post_services_reviews_bookings])
  with PostServices show ?thesis by (simp add: review_created_for_def)
next
  case (PostBookings now h req)
  have "length (reviews_join_bookings
          (snd (authenticated ev now h (post_bookings now req) d)) pid)
        = length (reviews_join_bookings d pid)"
    by (rule authenticated_preserves) (simp_all add: post_bookings_join_length[OF assms])
  with PostBookings show ?thesis by (simp add: review_created_for_def)
next
  case (PutBookingStatus now h i st)
  have "length (reviews_join_bookings
          (snd (authenticated ev now h (put_bookings_status now i st) d)) pid)
        = length (reviews_join_bookings d pid)"
    by (rule authenticated_preserves) (simp_all add: put_bookings_status_join_length)
  with PutBookingStatus show ?thesis by (simp add: review_created_for_def)
next
  case (PostMessages now h req)
  have "length (reviews_join_bookings
          (snd (authenticated ev now h (post_messages now req) d)) pid)
        = length (reviews_join_bookings d pid)"
    by (rule authenticated_preserves)
      (simp_all add: join_length_same_tables[OF post_messages_reviews_bookings])
  with PostMessages show ?thesis by (simp add: review_created_for_def)
next
  case (PostReviews now h req)
  show ?thesis
  proof (cases "authenticateToken ev now h")
    case (Inl r)
    have "app ev rq d = (r, d)" unfolding PostReviews app.simps by (rule authenticated_Inl[OF Inl])
    with authenticated_not_201[OF Inl] show ?thesis
      by (simp add: review_created_for_def PostReviews del: app.simps)
  next
    case (Inr user)
    have e: "app ev (PostReviews now h req) d = post_reviews now req user d"
      unfolding app.simps by (rule authenticated_Inr[OF Inr])
    have c: "review_created_for ev (PostReviews now h req) d pid \<longleftrightarrow>
             status (fst (post_reviews now req user d)) = 201
             \<and> (\<exists>b \<in> set (bookings d). Some (b_id b) = vq_booking_id req
                                       \<and> b_prestataire_id b = pid)"
      unfolding review_created_for_def request.case e ..
    show ?thesis unfolding PostReviews c e by (rule post_reviews_join_length[OF assms])
  qed
qed

lemma serve_join_length:
  "schema_ok d \<Longrightarrow>
   length (reviews_join_bookings (serve ev rqs d) pid)
   = length (reviews_join_bookings d pid) + reviews_created ev rqs d pid"
proof (induction rqs arbitrary: d)
  case Nil
  then show ?case by simp
next
  case (Cons rq rqs)
  have "schema_ok (snd (app ev rq d))" by (rule app_schema_ok[OF Cons.prems])
  from Cons.IH[OF this] app_join_length[OF Cons.prems, of ev rq pid]
  show ?case by (simp del: app.simps)
qed

lemma serve_append: "serve ev (xs @ ys) d = serve ev ys (serve ev xs d)"
  by (induction xs arbitrary: d) simp_all

lemma reviews_created_append:
  "reviews_created ev (xs @ ys) d pid
   = reviews_created ev xs d pid + reviews_created ev ys (serve ev xs d) pid"
  by (induction xs arbitrary: d) simp_all

lemma join_provider_has_profile:
  assumes "schema_ok d" "reviews_join_bookings d pid \<noteq> []"
  shows "\<exists>p \<in> set (prestataire_profiles d). p_id p = pid"
proof -
  from assms(2) obtain r b where "(r, b) \<in> set (reviews_join_bookings d pid)"
    by (cases "reviews_join_bookings d pid") auto
  then have b: "b \<in> set (bookings d)" "b_prestataire_id b = pid"
    by (auto simp: reviews_join_bookings_def)
  from assms(1) have "\<forall>b \<in> set (bookings d). b_prestataire_id b \<in> p_id ` set (prestataire_profiles d)"
    by (simp add: schema_ok_def bookings_inv_def)
  with b show ?thesis by fastforce
qed

lemma join_initDatabase: "reviews_join_bookings initDatabase pid = []"
  by (simp add: reviews_join_bookings_def initDatabase_def)

text \<open>
  Claim C3, as amended. Along every run of requests from the empty database, once a
  provider has N \<open>\<ge>\<close> 1 successful review creations the provider has a profile, N reviews are
  joined through the provider's bookings, \<open>nombre_avis\<close> is N and \<open>note_moyenne\<close> is
  the arithmetic mean, rounded to two decimals (a tie away from zero), of the ratings of
  those reviews that carry one; it is NULL when none does. The run may end with the Nth
  creation itself, so the columns hold these values as soon as that request is answered.
\<close>

theorem aggregate_after_nth_review:
  assumes "1 \<le> reviews_created ev rqs initDatabase pid"
  shows "(\<exists>p \<in> set (prestataire_profiles (serve ev rqs initDatabase)). p_id p = pid)
         \<and> length (reviews_join_bookings (serve ev rqs initDatabase) pid)
             = reviews_created ev rqs initDatabase pid
         \<and> (\<forall>p \<in> set (prestataire_profiles (serve ev rqs initDatabase)). p_id p = pid \<longrightarrow>
               p_nombre_avis p = Some (int (reviews_created ev rqs initDatabase pid))
               \<and> p_note_moyenne p
                   = (if ratings (serve ev rqs initDatabase) pid = [] then None
                      else Some (mean_2dp (ratings (serve ev rqs initDatabase) pid))))"
proof -
  let ?D = "serve ev rqs initDatabase"
  let ?N = "reviews_created ev rqs initDatabase pid"
  have ok: "schema_ok ?D" by (rule serve_schema_ok[OF schema_ok_init])
  have agg: "aggregate_ok ?D" by (rule serve_aggregate_ok[OF schema_ok_init aggregate_ok_init])
  have len: "length (reviews_join_bookings ?D pid) = ?N"
    unfolding serve_join_length[OF schema_ok_init] join_initDatabase by simp
  with assms have ne: "reviews_join_bookings ?D pid \<noteq> []" by auto
  note ex = join_provider_has_profile[OF ok ne]
  have "\<forall>p \<in> set (prestataire_profiles ?D). p_id p = pid \<longrightarrow>
          p_nombre_avis p = Some (int ?N)
          \<and> p_note_moyenne p = (if ratings ?D pid = [] then None
                                 else Some (mean_2dp (ratings ?D pid)))"
  proof (intro ballI impI)
    fix p assume p: "p \<in> set (prestataire_profiles ?D)" and i: "p_id p = pid"
    from agg p have "(p_nombre_avis p, p_note_moyenne p) = aggregate_of ?D (p_id p)"
      unfolding aggregate_ok_def by (rule bspec)
    then show "p_nombre_avis p = Some (int ?N)
          \<and> p_note_moyenne p = (if ratings ?D pid = [] then None
                                 else Some (mean_2dp (ratings ?D pid)))"
      unfolding i aggregate_of_def count_avis_def len using ne by simp
  qed
  with ex len show ?thesis by (intro conjI)
qed

theorem aggregate_after_nth_review_witness:
  "reviews_created example_env scenario_review initDatabase 1 = 1
   \<and> map p_nombre_avis (prestataire_profiles (serve example_env scenario_review initDatabase))
       = [Some 1]
   \<and> map p_note_moyenne (prestataire_profiles (serve example_env scenario_review initDatabase))
       = [Some 500]
   \<and> ratings (serve example_env scenario_review initDatabase) 1 = [5]"
proof -
  let ?rq = "PostReviews 5 (bearer 2 ''b@x.bf'' ''client'') (review_of (Some 5))"
  let ?D = "serve example_env scenario_review initDatabase"
  let ?N = "reviews_created example_env scenario_review initDatabase 1"
  have nc: "note_check (Some 5)" by (simp add: note_check_def)
  have a: "app example_env ?rq example_db = post_reviews 5 (review_of (Some 5)) user_b example_db"
    unfolding app.simps by (rule authenticated_Inr[OF authenticateToken_b])
  have ev: "post_reviews 5 (review_of (Some 5)) user_b example_db
      = (\<lparr>status = 201, body = ReviewBody msg_avis_ajoute \<lparr>r_id = 1, r_booking_id = 1,
        r_note = Some 5, r_commentaire = None, r_photos_review = None, r_created_at = 5\<rparr>\<rparr>,
      example_db\<lparr>reviews_id_seq := 2,
        reviews := [\<lparr>r_id = 1, r_booking_id = 1, r_note = Some 5,
          r_commentaire = None, r_photos_review = None, r_created_at = 5\<rparr>],
        prestataire_profiles :=
          [example_profile\<lparr>p_note_moyenne := Some 500, p_nombre_avis := Some 1\<rparr>]\<rparr>)"
    by (rule post_reviews_example[OF nc]) (simp add: avg_note_example numeric_3_2_5)
  have D: "?D = snd (post_reviews 5 (review_of (Some 5)) user_b example_db)"
    unfolding scenario_review_def serve_append scenario_example_db serve.simps a ..
  have ps: "prestataire_profiles ?D
            = [example_profile\<lparr>p_note_moyenne := Some 500, p_nombre_avis := Some 1\<rparr>]"
    unfolding D ev by simp
  have r: "ratings ?D 1 = [5]"
    unfolding D ev
    by (simp add: ratings_def reviews_join_bookings_def example_db_def example_booking_def)
  have c: "review_created_for example_env ?rq example_db 1"
    unfolding review_created_for_def request.case a ev
    by (simp add: example_db_def example_booking_def review_of_def)
  have "?N = reviews_created example_env scenario initDatabase 1
             + reviews_created example_env [?rq] example_db 1"
    unfolding scenario_review_def reviews_created_append scenario_example_db ..
  with c have hyp: "1 \<le> ?N" by (simp del: app.simps)
  from aggregate_after_nth_review[OF hyp]
  have "\<forall>p \<in> set (prestataire_profiles ?D). p_id p = 1 \<longrightarrow>
          p_nombre_avis p = Some (int ?N)
          \<and> p_note_moyenne p = (if ratings ?D 1 = [] then None
                                 else Some (mean_2dp (ratings ?D 1)))"
    by (elim conjE)
  then have "Some (1::int) = Some (int ?N)"
    unfolding ps by (simp add: example_profile_def)
  then have "?N = 1" by simp
  then show ?thesis using ps r by simp
qed

end
